theory Spec2Isabelle
  imports Main "HOL-Library.AList"
begin

section \<open>Data model\<close>

text \<open>
  The backing store of \<^verbatim>\<open>usuarios/models.py\<close>: the rows of \<^verbatim>\<open>User\<close>, \<^verbatim>\<open>Amistad\<close>
  and \<^verbatim>\<open>SolicitudAmistad\<close>, each table in the order in which \<^verbatim>\<open>objects.all()\<close>
  yields it. Only the columns that \<^verbatim>\<open>usuarios/graph_engine.py\<close> reads are kept.
\<close>

record user =
  user_id :: int
  username :: string

record amistad =
  usuario1_id :: int
  usuario2_id :: int

record solicitud_amistad =
  de_usuario_id :: int
  para_usuario_id :: int
  estado :: string

record base_datos =
  usuarios :: "user list"
  amistades :: "amistad list"
  solicitudes :: "solicitud_amistad list"

datatype error = DoesNotExist

text \<open>\<^verbatim>\<open>User.objects.get(id=x)\<close>: the row with that primary key, or \<^verbatim>\<open>User.DoesNotExist\<close>.\<close>

definition user_get :: "base_datos \<Rightarrow> int \<Rightarrow> error + user" where
  "user_get db x =
     (case find (\<lambda>u. user_id u = x) (usuarios db) of
        None \<Rightarrow> Inl DoesNotExist
      | Some u \<Rightarrow> Inr u)"

subsection \<open>Python sets and dictionaries\<close>

text \<open>
  A Python \<^verbatim>\<open>set\<close> is a list without repetitions, holding the elements in the order in
  which the set is iterated; \<^verbatim>\<open>s.add(x)\<close> leaves a set that already has \<open>x\<close> as it is.
  A \<^verbatim>\<open>dict\<close> is an association list in insertion order. The statements proved below
  speak about the elements of these lists (\<open>set\<close>, \<open>length\<close>, \<open>card\<close>) and the lemmas
  about the traversals hold for every adjacency structure, whatever the order of its
  neighbour lists.
\<close>

definition set_add :: "int \<Rightarrow> int list \<Rightarrow> int list" where
  "set_add x s = (if x \<in> set s then s else s @ [x])"

text \<open>\<^verbatim>\<open>s.update(t)\<close>\<close>

definition set_update :: "int list \<Rightarrow> int list \<Rightarrow> int list" where
  "set_update s t = fold set_add t s"

text \<open>\<^verbatim>\<open>s - t\<close>\<close>

definition set_difference :: "int list \<Rightarrow> int list \<Rightarrow> int list" where
  "set_difference s t = filter (\<lambda>x. x \<notin> set t) s"

text \<open>\<^verbatim>\<open>s.intersection(t)\<close>\<close>

definition set_intersection :: "int list \<Rightarrow> int list \<Rightarrow> int list" where
  "set_intersection s t = filter (\<lambda>x. x \<in> set t) s"

text \<open>\<^verbatim>\<open>set(xs)\<close> of a sequence\<close>

definition set_of_list :: "int list \<Rightarrow> int list" where
  "set_of_list xs = fold set_add xs []"

type_synonym dict_sets = "(int \<times> int list) list"

text \<open>\<^verbatim>\<open>d.get(k, set())\<close>: a lookup that never inserts.\<close>

definition dd_get :: "dict_sets \<Rightarrow> int \<Rightarrow> int list" where
  "dd_get d k = (case map_of d k of None \<Rightarrow> [] | Some s \<Rightarrow> s)"

text \<open>
  \<^verbatim>\<open>d[k]\<close> on a \<^verbatim>\<open>defaultdict(set)\<close>: an absent key is inserted with the empty set
  (the dictionary after the access is returned).
\<close>

definition dd_item :: "int \<Rightarrow> dict_sets \<Rightarrow> dict_sets" where
  "dd_item k d = (case map_of d k of None \<Rightarrow> d @ [(k, [])] | Some s \<Rightarrow> d)"

text \<open>\<^verbatim>\<open>d[k].add(v)\<close> on a \<^verbatim>\<open>defaultdict(set)\<close>.\<close>

definition dd_add :: "int \<Rightarrow> int \<Rightarrow> dict_sets \<Rightarrow> dict_sets" where
  "dd_add k v d = AList.update k (set_add v (dd_get (dd_item k d) k)) (dd_item k d)"

section \<open>GrafoSocial\<close>

record grafo_social =
  grafo :: dict_sets
  construido :: bool

text \<open>\<^verbatim>\<open>GrafoSocial.__init__\<close>\<close>

definition grafo_social_init :: grafo_social where
  "grafo_social_init = \<lparr>grafo = [], construido = False\<rparr>"

text \<open>\<^verbatim>\<open>GrafoSocial.construir_grafo\<close>\<close>

definition agregar_arista :: "amistad \<Rightarrow> dict_sets \<Rightarrow> dict_sets" where
  "agregar_arista a g =
     dd_add (usuario2_id a) (usuario1_id a) (dd_add (usuario1_id a) (usuario2_id a) g)"

definition construir_grafo :: "base_datos \<Rightarrow> grafo_social \<Rightarrow> grafo_social" where
  "construir_grafo db gs =
     gs\<lparr>grafo := fold agregar_arista (amistades db)
                   (fold (\<lambda>u g. dd_item (user_id u) g) (usuarios db) []),
        construido := True\<rparr>"

text \<open>The guard \<^verbatim>\<open>if not self._construido: self.construir_grafo()\<close> of every query.\<close>

definition asegurar_construido :: "base_datos \<Rightarrow> grafo_social \<Rightarrow> grafo_social" where
  "asegurar_construido db gs = (if \<not> construido gs then construir_grafo db gs else gs)"

text \<open>\<^verbatim>\<open>GrafoSocial.obtener_amigos\<close>: the result and the object after the call.\<close>

definition obtener_amigos ::
  "base_datos \<Rightarrow> grafo_social \<Rightarrow> int \<Rightarrow> int list \<times> grafo_social" where
  "obtener_amigos db gs usuario_id =
     (let gs' = asegurar_construido db gs in (dd_get (grafo gs') usuario_id, gs'))"

subsection \<open>bfs\_niveles\<close>

text \<open>
  The state of the loop: \<^verbatim>\<open>visitados\<close>, \<^verbatim>\<open>cola\<close> and \<^verbatim>\<open>niveles\<close>. The inner
  \<^verbatim>\<open>for vecino in ...\<close> is \<open>bfs_vecinos\<close>, the \<^verbatim>\<open>while cola\<close> is \<open>bfs_bucle\<close>.
\<close>

type_synonym estado_bfs = "int list \<times> (int \<times> int) list \<times> dict_sets"

fun bfs_vecinos :: "int \<Rightarrow> int list \<Rightarrow> estado_bfs \<Rightarrow> estado_bfs" where
  "bfs_vecinos nivel [] st = st"
| "bfs_vecinos nivel (vecino # resto) (visitados, cola, niveles) =
     (if vecino \<notin> set visitados
      then bfs_vecinos nivel resto
             (set_add vecino visitados, cola @ [(vecino, nivel + 1)],
              dd_add (nivel + 1) vecino niveles)
      else bfs_vecinos nivel resto (visitados, cola, niveles))"

definition nodos :: "dict_sets \<Rightarrow> int set" where
  "nodos g = (\<Union>p \<in> set g. set (snd p))"

lemma dd_get_nodos: "set (dd_get g k) \<subseteq> nodos g"
proof (cases "map_of g k")
  case None
  then show ?thesis by (simp add: dd_get_def)
next
  case (Some s)
  then have "(k, s) \<in> set g" by (rule map_of_SomeD)
  then have "set s \<subseteq> nodos g" by (force simp: nodos_def)
  with Some show ?thesis by (simp add: dd_get_def)
qed

lemma set_set_add [simp]: "set (set_add x s) = insert x (set s)"
  by (auto simp: set_add_def)

lemma bfs_vecinos_visitados:
  "bfs_vecinos l vs (vis, cola, niv) = (vis', cola', niv') \<Longrightarrow>
     set vis' = set vis \<union> set vs \<and> (set vs \<subseteq> set vis \<longrightarrow> cola' = cola)"
proof (induction vs arbitrary: vis cola niv)
  case Nil
  then show ?case by simp
next
  case (Cons v vs)
  show ?case
  proof (cases "v \<in> set vis")
    case True
    with Cons.prems have "bfs_vecinos l vs (vis, cola, niv) = (vis', cola', niv')" by simp
    from Cons.IH [OF this] True show ?thesis by auto
  next
    case False
    with Cons.prems have
      "bfs_vecinos l vs (set_add v vis, cola @ [(v, l + 1)], dd_add (l + 1) v niv)
         = (vis', cola', niv')" by simp
    from Cons.IH [OF this] False show ?thesis by auto
  qed
qed

function bfs_bucle :: "dict_sets \<Rightarrow> int \<Rightarrow> estado_bfs \<Rightarrow> estado_bfs" where
  "bfs_bucle g nivel_maximo (visitados, [], niveles) = (visitados, [], niveles)"
| "bfs_bucle g nivel_maximo (visitados, (actual, nivel) # cola, niveles) =
     (if nivel \<ge> nivel_maximo
      then bfs_bucle g nivel_maximo (visitados, cola, niveles)
      else bfs_bucle g nivel_maximo
             (bfs_vecinos nivel (dd_get g actual) (visitados, cola, niveles)))"
  by pat_completeness auto
termination
proof (relation "(\<lambda>(g, k, vis, cola, niv). card (nodos g - set vis)) <*mlex*>
                 measure (\<lambda>(g, k, vis, cola, niv). length cola)", goal_cases)
  case 1
  show ?case by (simp add: wf_mlex)
next
  case (2 g k vis a l cola niv)
  show ?case by (simp add: mlex_less mlex_leq)
next
  case (3 g k vis a l cola niv)
  obtain vis' cola' niv' where
    st: "bfs_vecinos l (dd_get g a) (vis, cola, niv) = (vis', cola', niv')"
    by (cases "bfs_vecinos l (dd_get g a) (vis, cola, niv)") auto
  from bfs_vecinos_visitados [OF st]
  have v: "set vis' = set vis \<union> set (dd_get g a)"
    and c: "set (dd_get g a) \<subseteq> set vis \<longrightarrow> cola' = cola" by auto
  have fin: "finite (nodos g - set vis)" by (simp add: nodos_def)
  show ?case
  proof (cases "set (dd_get g a) \<subseteq> set vis")
    case True
    with v c have "set vis' = set vis" "cola' = cola" by auto
    then show ?thesis by (simp add: st mlex_less mlex_leq)
  next
    case False
    then obtain w where w: "w \<in> set (dd_get g a)" "w \<notin> set vis" by auto
    with dd_get_nodos have "w \<in> nodos g - set vis" by auto
    moreover have "w \<notin> nodos g - set vis'" using v w by auto
    moreover have "nodos g - set vis' \<subseteq> nodos g - set vis" using v by auto
    ultimately have "nodos g - set vis' \<subset> nodos g - set vis" by auto
    from psubset_card_mono [OF fin this] show ?thesis
      by (simp add: st mlex_less)
  qed
qed

definition bfs_niveles_grafo :: "dict_sets \<Rightarrow> int \<Rightarrow> int \<Rightarrow> dict_sets" where
  "bfs_niveles_grafo g usuario_id nivel_maximo =
     snd (snd (bfs_bucle g nivel_maximo ([usuario_id], [(usuario_id, 0)], [])))"

text \<open>\<^verbatim>\<open>GrafoSocial.bfs_niveles\<close>\<close>

definition bfs_niveles ::
  "base_datos \<Rightarrow> grafo_social \<Rightarrow> int \<Rightarrow> int \<Rightarrow> dict_sets \<times> grafo_social" where
  "bfs_niveles db gs usuario_id nivel_maximo =
     (let gs' = asegurar_construido db gs
      in (bfs_niveles_grafo (grafo gs') usuario_id nivel_maximo, gs'))"

subsection \<open>amigos\_en\_comun\<close>

definition amigos_en_comun ::
  "base_datos \<Rightarrow> grafo_social \<Rightarrow> int \<Rightarrow> int \<Rightarrow> int list \<times> grafo_social" where
  "amigos_en_comun db gs usuario1 usuario2 =
     (let gs' = asegurar_construido db gs;
          amigos1 = dd_get (grafo gs') usuario1;
          amigos2 = dd_get (grafo gs') usuario2
      in (set_intersection amigos1 amigos2, gs'))"

subsection \<open>distancia\_entre\_usuarios\<close>

text \<open>
  The inner \<^verbatim>\<open>for\<close> either returns from the whole method (\<open>Inl\<close> of the returned
  distance) or falls through with the updated \<^verbatim>\<open>visitados\<close> and \<^verbatim>\<open>cola\<close>.
\<close>

type_synonym estado_dist = "int list \<times> (int \<times> int) list"

fun dist_vecinos :: "int \<Rightarrow> int \<Rightarrow> int list \<Rightarrow> estado_dist \<Rightarrow> int + estado_dist" where
  "dist_vecinos destino_id distancia [] st = Inr st"
| "dist_vecinos destino_id distancia (vecino # resto) (visitados, cola) =
     (if vecino = destino_id then Inl (distancia + 1)
      else if vecino \<notin> set visitados
      then dist_vecinos destino_id distancia resto
             (set_add vecino visitados, cola @ [(vecino, distancia + 1)])
      else dist_vecinos destino_id distancia resto (visitados, cola))"

lemma dist_vecinos_visitados:
  "dist_vecinos x l vs (vis, cola) = Inr (vis', cola') \<Longrightarrow>
     set vis' = set vis \<union> set vs \<and> (set vs \<subseteq> set vis \<longrightarrow> cola' = cola)"
proof (induction vs arbitrary: vis cola)
  case Nil
  then show ?case by simp
next
  case (Cons v vs)
  from Cons.prems have nx: "v \<noteq> x" by (auto split: if_splits)
  show ?case
  proof (cases "v \<in> set vis")
    case True
    with Cons.prems nx have "dist_vecinos x l vs (vis, cola) = Inr (vis', cola')" by simp
    from Cons.IH [OF this] True show ?thesis by auto
  next
    case False
    with Cons.prems nx have
      "dist_vecinos x l vs (set_add v vis, cola @ [(v, l + 1)]) = Inr (vis', cola')" by simp
    from Cons.IH [OF this] False show ?thesis by auto
  qed
qed

function dist_bucle :: "dict_sets \<Rightarrow> int \<Rightarrow> int \<Rightarrow> estado_dist \<Rightarrow> int" where
  "dist_bucle g destino_id max_distancia (visitados, []) = - 1"
| "dist_bucle g destino_id max_distancia (visitados, (actual, distancia) # cola) =
     (if distancia \<ge> max_distancia
      then dist_bucle g destino_id max_distancia (visitados, cola)
      else (case dist_vecinos destino_id distancia (dd_get g actual) (visitados, cola) of
              Inl d \<Rightarrow> d
            | Inr st \<Rightarrow> dist_bucle g destino_id max_distancia st))"
  by pat_completeness auto
termination
proof (relation "(\<lambda>(g, x, k, vis, cola). card (nodos g - set vis)) <*mlex*>
                 measure (\<lambda>(g, x, k, vis, cola). length cola)", goal_cases)
  case 1
  show ?case by (simp add: wf_mlex)
next
  case (2 g x k vis a l cola)
  show ?case by (simp add: mlex_less mlex_leq)
next
  case (3 g x k vis a l cola st)
  obtain vis' cola' where st: "st = (vis', cola')" by (cases st) auto
  from 3 st have "dist_vecinos x l (dd_get g a) (vis, cola) = Inr (vis', cola')" by simp
  from dist_vecinos_visitados [OF this]
  have v: "set vis' = set vis \<union> set (dd_get g a)"
    and c: "set (dd_get g a) \<subseteq> set vis \<longrightarrow> cola' = cola" by auto
  have fin: "finite (nodos g - set vis)" by (simp add: nodos_def)
  show ?case
  proof (cases "set (dd_get g a) \<subseteq> set vis")
    case True
    with v c have "set vis' = set vis" "cola' = cola" by auto
    then show ?thesis by (simp add: st mlex_less mlex_leq)
  next
    case False
    then obtain w where w: "w \<in> set (dd_get g a)" "w \<notin> set vis" by auto
    with dd_get_nodos have "w \<in> nodos g - set vis" by auto
    moreover have "w \<notin> nodos g - set vis'" using v w by auto
    moreover have "nodos g - set vis' \<subseteq> nodos g - set vis" using v by auto
    ultimately have "nodos g - set vis' \<subset> nodos g - set vis" by auto
    from psubset_card_mono [OF fin this] show ?thesis
      by (simp add: st mlex_less)
  qed
qed

definition distancia_grafo :: "dict_sets \<Rightarrow> int \<Rightarrow> int \<Rightarrow> int \<Rightarrow> int" where
  "distancia_grafo g origen_id destino_id max_distancia =
     (if origen_id = destino_id then 0
      else dist_bucle g destino_id max_distancia ([origen_id], [(origen_id, 0)]))"

text \<open>\<^verbatim>\<open>GrafoSocial.distancia_entre_usuarios\<close>; \<open>- 1\<close> is "no hay conexion".\<close>

definition distancia_entre_usuarios ::
  "base_datos \<Rightarrow> grafo_social \<Rightarrow> int \<Rightarrow> int \<Rightarrow> int \<Rightarrow> int \<times> grafo_social" where
  "distancia_entre_usuarios db gs origen_id destino_id max_distancia =
     (let gs' = asegurar_construido db gs
      in (distancia_grafo (grafo gs') origen_id destino_id max_distancia, gs'))"

section \<open>MotorRecomendaciones\<close>

text \<open>
  The only field of a \<^verbatim>\<open>MotorRecomendaciones\<close> is its \<^verbatim>\<open>GrafoSocial\<close>, so its methods
  take and return a \<open>grafo_social\<close>.
\<close>

record datos_puntuacion =
  puntuacion :: int
  amigos_comun :: "int list"
  num_amigos_comun :: int
  distancia :: int

text \<open>\<^verbatim>\<open>MotorRecomendaciones.calcular_puntuacion\<close>; 5 is the default \<^verbatim>\<open>max_distancia\<close>.\<close>

definition calcular_puntuacion ::
  "base_datos \<Rightarrow> grafo_social \<Rightarrow> int \<Rightarrow> int \<Rightarrow> datos_puntuacion \<times> grafo_social" where
  "calcular_puntuacion db gs usuario_id candidato_id =
     (let (comun, gs1) = amigos_en_comun db gs usuario_id candidato_id;
          num = int (length comun);
          (dist, gs2) = distancia_entre_usuarios db gs1 usuario_id candidato_id 5;
          p0 = 0;
          p1 = p0 + num * 10;
          p2 = (if dist = 2 then p1 + 5
                else if dist = 3 then p1 + 2
                else if dist > 3 then p1 + 1
                else p1)
      in (\<lparr>puntuacion = p2, amigos_comun = comun, num_amigos_comun = num,
           distancia = dist\<rparr>, gs2))"

record recomendacion =
  rec_usuario :: user
  rec_puntuacion :: int
  rec_num_amigos_comun :: int
  rec_amigos_comun_nombres :: "string list"
  rec_distancia :: int

text \<open>Python's \<^verbatim>\<open>xs[:n]\<close>: a negative \<open>n\<close> counts from the end.\<close>

definition slice_hasta :: "'a list \<Rightarrow> int \<Rightarrow> 'a list" where
  "slice_hasta xs n =
     (if n \<ge> 0 then take (nat n) xs else take (nat (int (length xs) + n)) xs)"

text \<open>The candidates of levels 2, 3 and 4.\<close>

definition candidatos_niveles :: "dict_sets \<Rightarrow> int list" where
  "candidatos_niveles niveles =
     fold (\<lambda>nivel candidatos_ids. set_update candidatos_ids (dd_get niveles nivel))
       [2, 3, 4] []"

text \<open>\<^verbatim>\<open>if len(candidatos_ids) < limite: ...\<close>\<close>

definition ampliar_candidatos ::
  "base_datos \<Rightarrow> int list \<Rightarrow> int \<Rightarrow> int \<Rightarrow> int list \<Rightarrow> int list" where
  "ampliar_candidatos db amigos_directos usuario_id limite candidatos_ids =
     (if int (length candidatos_ids) < limite
      then (let todos_usuarios = set_of_list (map user_id (usuarios db));
                sin_conexion =
                  set_difference
                    (set_difference (set_difference todos_usuarios amigos_directos)
                       [usuario_id])
                    candidatos_ids
            in set_update candidatos_ids sin_conexion)
      else candidatos_ids)"

definition solicitudes_enviadas :: "base_datos \<Rightarrow> user \<Rightarrow> int list" where
  "solicitudes_enviadas db usuario =
     set_of_list (map para_usuario_id
       (filter (\<lambda>s. de_usuario_id s = user_id usuario \<and> estado s = ''pendiente'')
          (solicitudes db)))"

definition solicitudes_recibidas :: "base_datos \<Rightarrow> user \<Rightarrow> int list" where
  "solicitudes_recibidas db usuario =
     set_of_list (map de_usuario_id
       (filter (\<lambda>s. para_usuario_id s = user_id usuario \<and> estado s = ''pendiente'')
          (solicitudes db)))"

definition excluir_pendientes :: "base_datos \<Rightarrow> user \<Rightarrow> int list \<Rightarrow> int list" where
  "excluir_pendientes db usuario candidatos_ids =
     set_difference (set_difference candidatos_ids (solicitudes_enviadas db usuario))
       (solicitudes_recibidas db usuario)"

text \<open>The names of at most three common friends; an id without a row is skipped.\<close>

definition nombres_amigos :: "base_datos \<Rightarrow> int list \<Rightarrow> string list" where
  "nombres_amigos db ids =
     concat (map (\<lambda>amigo_id. case user_get db amigo_id of
                                Inl e \<Rightarrow> []
                              | Inr amigo \<Rightarrow> [username amigo])
               (slice_hasta ids 3))"

text \<open>The loop \<^verbatim>\<open>for candidato_id in candidatos_ids\<close>.\<close>

fun puntuar_candidatos ::
  "base_datos \<Rightarrow> grafo_social \<Rightarrow> int \<Rightarrow> int list \<Rightarrow> recomendacion list \<times> grafo_social" where
  "puntuar_candidatos db gs usuario_id [] = ([], gs)"
| "puntuar_candidatos db gs usuario_id (candidato_id # resto) =
     (case user_get db candidato_id of
        Inl e \<Rightarrow> puntuar_candidatos db gs usuario_id resto
      | Inr candidato_user \<Rightarrow>
          (let (datos, gs1) = calcular_puntuacion db gs usuario_id candidato_id;
               r = \<lparr>rec_usuario = candidato_user,
                    rec_puntuacion = puntuacion datos,
                    rec_num_amigos_comun = num_amigos_comun datos,
                    rec_amigos_comun_nombres = nombres_amigos db (amigos_comun datos),
                    rec_distancia = distancia datos\<rparr>;
               (rs, gs2) = puntuar_candidatos db gs1 usuario_id resto
           in (r # rs, gs2)))"

text \<open>
  The candidate pool of \<^verbatim>\<open>obtener_recomendaciones\<close> before the pending requests are
  taken out (lines 209 to 228), with the object after the queries.
\<close>

definition candidatos_antes_de_solicitudes ::
  "base_datos \<Rightarrow> grafo_social \<Rightarrow> user \<Rightarrow> int \<Rightarrow> int list \<times> grafo_social" where
  "candidatos_antes_de_solicitudes db gs usuario limite =
     (let gs0 = construir_grafo db gs;
          usuario_id = user_id usuario;
          (amigos_directos, gs1) = obtener_amigos db gs0 usuario_id;
          (niveles, gs2) = bfs_niveles db gs1 usuario_id 4;
          candidatos_ids = candidatos_niveles niveles
      in (ampliar_candidatos db amigos_directos usuario_id limite candidatos_ids, gs2))"

text \<open>
  \<^verbatim>\<open>MotorRecomendaciones.obtener_recomendaciones\<close>. The method has no \<^verbatim>\<open>raise\<close> and
  catches the \<^verbatim>\<open>DoesNotExist\<close> of its lookups, so it always returns (\<open>Inr\<close>).
  \<^verbatim>\<open>sort(key=..., reverse=True)\<close> is stable, as \<open>sort_key\<close> on the negated score is.
\<close>

definition obtener_recomendaciones ::
  "base_datos \<Rightarrow> grafo_social \<Rightarrow> user \<Rightarrow> int \<Rightarrow> error + (recomendacion list \<times> grafo_social)"
  where
  "obtener_recomendaciones db gs usuario limite =
     (let (candidatos_ids, gs2) = candidatos_antes_de_solicitudes db gs usuario limite;
          candidatos_ids = excluir_pendientes db usuario candidatos_ids;
          (recomendaciones, gs3) = puntuar_candidatos db gs2 (user_id usuario) candidatos_ids;
          recomendaciones = sort_key (\<lambda>x. - rec_puntuacion x) recomendaciones
      in Inr (slice_hasta recomendaciones limite, gs3))"

record estadisticas =
  est_amigos_directos :: int
  est_nivel_2 :: int
  est_nivel_3 :: int
  est_nivel_4 :: int
  est_total_usuarios :: int
  est_alcance :: int

text \<open>\<^verbatim>\<open>MotorRecomendaciones.obtener_estadisticas_grafo\<close>\<close>

definition obtener_estadisticas_grafo ::
  "base_datos \<Rightarrow> grafo_social \<Rightarrow> user \<Rightarrow> error + (estadisticas \<times> grafo_social)" where
  "obtener_estadisticas_grafo db gs usuario =
     (let gs0 = construir_grafo db gs;
          usuario_id = user_id usuario;
          (niveles, gs1) = bfs_niveles db gs0 usuario_id 4;
          (amigos, gs2) = obtener_amigos db gs1 usuario_id
      in Inr (\<lparr>est_amigos_directos = int (length amigos),
                est_nivel_2 = int (length (dd_get niveles 2)),
                est_nivel_3 = int (length (dd_get niveles 3)),
                est_nivel_4 = int (length (dd_get niveles 4)),
                est_total_usuarios = int (length (grafo gs2)),
                est_alcance = sum_list (map (\<lambda>v. int (length v)) (map snd niveles))\<rparr>,
              gs2))"

section \<open>Specification notions\<close>

text \<open>A stored friendship joins \<open>a\<close> and \<open>b\<close>, in either order.\<close>

definition arista :: "base_datos \<Rightarrow> int \<Rightarrow> int \<Rightarrow> bool" where
  "arista db a b \<longleftrightarrow>
     (\<exists>e \<in> set (amistades db).
        (usuario1_id e = a \<and> usuario2_id e = b) \<or> (usuario1_id e = b \<and> usuario2_id e = a))"

text \<open>
  The spec's "shortest-path length from origin", written from its words and not from the
  traversal: \<open>caminos g s n\<close> are the ends of the walks of \<open>n\<close> edges that start at \<open>s\<close>,
  and \<open>v\<close> is at distance \<open>d\<close> when a walk of \<open>d\<close> edges reaches it and no shorter one does.
\<close>

fun caminos :: "dict_sets \<Rightarrow> int \<Rightarrow> nat \<Rightarrow> int set" where
  "caminos g s 0 = {s}"
| "caminos g s (Suc n) = (\<Union>p \<in> caminos g s n. set (dd_get g p))"

definition distancia_minima :: "dict_sets \<Rightarrow> int \<Rightarrow> int \<Rightarrow> nat \<Rightarrow> bool" where
  "distancia_minima g s v d \<longleftrightarrow> v \<in> caminos g s d \<and> (\<forall>j<d. v \<notin> caminos g s j)"

subsection \<open>The loop invariant of bfs\_niveles\<close>

text \<open>
  The parts of the invariant: the queue holds visited nodes with their exact distance, in
  ascending order and spanning at most two consecutive levels; a level set holds visited
  nodes at exactly that distance; a visited node other than the origin is in a level set;
  a visited node that has left the queue below the bound has all its neighbours visited;
  and every node no farther than the head of the queue is visited.
\<close>

definition inv_cola :: "dict_sets \<Rightarrow> int \<Rightarrow> int \<Rightarrow> int list \<Rightarrow> (int \<times> int) list \<Rightarrow> bool" where
  "inv_cola g s k vis cola \<longleftrightarrow>
     (\<forall>v l. (v, l) \<in> set cola \<longrightarrow>
        v \<in> set vis \<and> 0 \<le> l \<and> l \<le> max k 0 \<and> distancia_minima g s v (nat l))"

definition inv_orden :: "(int \<times> int) list \<Rightarrow> bool" where
  "inv_orden cola \<longleftrightarrow>
     sorted (map snd cola)
     \<and> (\<forall>l l'. l \<in> snd ` set cola \<longrightarrow> l' \<in> snd ` set cola \<longrightarrow> l' \<le> l + 1)"

definition inv_niveles :: "dict_sets \<Rightarrow> int \<Rightarrow> int \<Rightarrow> int list \<Rightarrow> dict_sets \<Rightarrow> bool" where
  "inv_niveles g s k vis niv \<longleftrightarrow>
     (\<forall>l v. v \<in> set (dd_get niv l) \<longrightarrow>
        v \<in> set vis \<and> 1 \<le> l \<and> l \<le> k \<and> distancia_minima g s v (nat l))"

definition inv_registro :: "int \<Rightarrow> int list \<Rightarrow> dict_sets \<Rightarrow> bool" where
  "inv_registro s vis niv \<longleftrightarrow>
     (\<forall>v. v \<in> set vis \<longrightarrow> v = s \<or> (\<exists>l. v \<in> set (dd_get niv l)))"

definition inv_procesados ::
  "dict_sets \<Rightarrow> int \<Rightarrow> int \<Rightarrow> int list \<Rightarrow> (int \<times> int) list \<Rightarrow> bool" where
  "inv_procesados g s k vis cola \<longleftrightarrow>
     (\<forall>p d. p \<in> set vis \<longrightarrow> p \<notin> fst ` set cola \<longrightarrow> distancia_minima g s p d \<longrightarrow>
        int d < k \<longrightarrow> set (dd_get g p) \<subseteq> set vis)"

definition inv_frontera :: "dict_sets \<Rightarrow> int \<Rightarrow> int list \<Rightarrow> (int \<times> int) list \<Rightarrow> bool" where
  "inv_frontera g s vis cola \<longleftrightarrow>
     (\<forall>a l rest w d. cola = (a, l) # rest \<longrightarrow> distancia_minima g s w d \<longrightarrow>
        int d \<le> l \<longrightarrow> w \<in> set vis)"

definition bfs_inv :: "dict_sets \<Rightarrow> int \<Rightarrow> int \<Rightarrow> estado_bfs \<Rightarrow> bool" where
  "bfs_inv g s k st =
     (case st of (vis, cola, niv) \<Rightarrow>
        s \<in> set vis \<and> inv_cola g s k vis cola \<and> inv_orden cola
        \<and> inv_niveles g s k vis niv \<and> inv_registro s vis niv
        \<and> inv_procesados g s k vis cola \<and> inv_frontera g s vis cola)"

section \<open>Example stores\<close>

text \<open>
  The users and friendships that \<^verbatim>\<open>crear_datos_prueba.py\<close> creates, with the ids 1 to 10
  in the order of creation: ana, carlos, maria, juan, sofia, diego, lucia, pedro, elena,
  miguel.
\<close>

definition db_prueba :: base_datos where
  "db_prueba =
     \<lparr>usuarios =
        [\<lparr>user_id = 1, username = ''ana''\<rparr>, \<lparr>user_id = 2, username = ''carlos''\<rparr>,
         \<lparr>user_id = 3, username = ''maria''\<rparr>, \<lparr>user_id = 4, username = ''juan''\<rparr>,
         \<lparr>user_id = 5, username = ''sofia''\<rparr>, \<lparr>user_id = 6, username = ''diego''\<rparr>,
         \<lparr>user_id = 7, username = ''lucia''\<rparr>, \<lparr>user_id = 8, username = ''pedro''\<rparr>,
         \<lparr>user_id = 9, username = ''elena''\<rparr>, \<lparr>user_id = 10, username = ''miguel''\<rparr>],
      amistades =
        [\<lparr>usuario1_id = 1, usuario2_id = 2\<rparr>, \<lparr>usuario1_id = 1, usuario2_id = 3\<rparr>,
         \<lparr>usuario1_id = 2, usuario2_id = 4\<rparr>, \<lparr>usuario1_id = 2, usuario2_id = 6\<rparr>,
         \<lparr>usuario1_id = 3, usuario2_id = 4\<rparr>, \<lparr>usuario1_id = 3, usuario2_id = 5\<rparr>,
         \<lparr>usuario1_id = 6, usuario2_id = 7\<rparr>, \<lparr>usuario1_id = 6, usuario2_id = 10\<rparr>,
         \<lparr>usuario1_id = 7, usuario2_id = 8\<rparr>, \<lparr>usuario1_id = 7, usuario2_id = 9\<rparr>],
      solicitudes = []\<rparr>"

definition sofia :: user where
  "sofia = \<lparr>user_id = 5, username = ''sofia''\<rparr>"

text \<open>Two users and no friendship.\<close>

definition db_aislados :: base_datos where
  "db_aislados =
     \<lparr>usuarios = [\<lparr>user_id = 1, username = ''ana''\<rparr>, \<lparr>user_id = 2, username = ''carlos''\<rparr>],
      amistades = [],
      solicitudes = []\<rparr>"

text \<open>
  A path of five users, ana to sofia, with three friendship requests: ana to maria and
  sofia to ana pending, ana to juan rejected.
\<close>

definition db_camino :: base_datos where
  "db_camino =
     \<lparr>usuarios =
        [\<lparr>user_id = 1, username = ''ana''\<rparr>, \<lparr>user_id = 2, username = ''carlos''\<rparr>,
         \<lparr>user_id = 3, username = ''maria''\<rparr>, \<lparr>user_id = 4, username = ''juan''\<rparr>,
         \<lparr>user_id = 5, username = ''sofia''\<rparr>],
      amistades =
        [\<lparr>usuario1_id = 1, usuario2_id = 2\<rparr>, \<lparr>usuario1_id = 2, usuario2_id = 3\<rparr>,
         \<lparr>usuario1_id = 3, usuario2_id = 4\<rparr>, \<lparr>usuario1_id = 4, usuario2_id = 5\<rparr>],
      solicitudes =
        [\<lparr>de_usuario_id = 1, para_usuario_id = 3, estado = ''pendiente''\<rparr>,
         \<lparr>de_usuario_id = 5, para_usuario_id = 1, estado = ''pendiente''\<rparr>,
         \<lparr>de_usuario_id = 1, para_usuario_id = 4, estado = ''rechazada''\<rparr>]\<rparr>"

definition ana :: user where
  "ana = \<lparr>user_id = 1, username = ''ana''\<rparr>"

definition carlos :: user where
  "carlos = \<lparr>user_id = 2, username = ''carlos''\<rparr>"

text \<open>A user object whose row is in no store.\<close>

definition nadie :: user where
  "nadie = \<lparr>user_id = 99, username = ''nadie''\<rparr>"

section \<open>Facts about the dictionaries and the built graph\<close>

lemma dd_get_dd_item [simp]: "dd_get (dd_item k d) k' = dd_get d k'"
  by (auto simp: dd_get_def dd_item_def split: option.splits if_splits)

lemma dd_get_update:
  "dd_get (AList.update k s d) k' = (if k' = k then s else dd_get d k')"
  by (simp add: dd_get_def update_conv')

lemma dd_get_dd_add:
  "dd_get (dd_add k v d) k' = (if k' = k then set_add v (dd_get d k) else dd_get d k')"
  by (simp add: dd_add_def dd_get_update)

lemma dd_get_Nil [simp]: "dd_get [] k = []"
  by (simp add: dd_get_def)

lemma distinct_set_add: "distinct s \<Longrightarrow> distinct (set_add x s)"
  by (simp add: set_add_def)

lemma fold_dd_item_get [simp]:
  "dd_get (fold (\<lambda>u g. dd_item (user_id u) g) us g0) k = dd_get g0 k"
  by (induction us arbitrary: g0) simp_all

lemma fold_agregar_arista_get:
  "set (dd_get (fold agregar_arista es g0) a) =
     set (dd_get g0 a) \<union>
     {b. \<exists>e \<in> set es. (usuario1_id e = a \<and> usuario2_id e = b) \<or>
                        (usuario1_id e = b \<and> usuario2_id e = a)}"
proof (induction es arbitrary: g0)
  case Nil
  show ?case by simp
next
  case (Cons e es)
  have "set (dd_get (agregar_arista e g0) a) =
          set (dd_get g0 a) \<union> {b. (usuario1_id e = a \<and> usuario2_id e = b) \<or>
                                  (usuario1_id e = b \<and> usuario2_id e = a)}"
    by (auto simp: agregar_arista_def dd_get_dd_add)
  then show ?case by (auto simp: Cons.IH)
qed

lemma fold_agregar_arista_distinct:
  "(\<forall>k. distinct (dd_get g0 k)) \<Longrightarrow> distinct (dd_get (fold agregar_arista es g0) a)"
proof (induction es arbitrary: g0)
  case Nil
  then show ?case by simp
next
  case (Cons e es)
  have "\<forall>k. distinct (dd_get (agregar_arista e g0) k)"
    using Cons.prems by (simp add: agregar_arista_def dd_get_dd_add distinct_set_add)
  from Cons.IH [OF this] show ?case by simp
qed

lemma construir_grafo_vecinos:
  "b \<in> set (dd_get (grafo (construir_grafo db gs)) a) \<longleftrightarrow> arista db a b"
  by (simp add: construir_grafo_def fold_agregar_arista_get arista_def)

lemma construir_grafo_distinct:
  "distinct (dd_get (grafo (construir_grafo db gs)) a)"
  by (simp add: construir_grafo_def fold_agregar_arista_distinct)

lemma construido_construir [simp]: "construido (construir_grafo db gs)"
  by (simp add: construir_grafo_def)

lemma asegurar_construido_id [simp]: "construido gs \<Longrightarrow> asegurar_construido db gs = gs"
  by (simp add: asegurar_construido_def)

lemma construido_asegurar [simp]: "construido (asegurar_construido db gs)"
  by (simp add: asegurar_construido_def)

section \<open>Shortest paths and the breadth-first traversal\<close>

lemma dm_unique:
  "distancia_minima g s v d \<Longrightarrow> distancia_minima g s v d' \<Longrightarrow> d = d'"
  by (metis distancia_minima_def linorder_neqE_nat)

lemma dm_zero [simp]: "distancia_minima g s v 0 \<longleftrightarrow> v = s"
  by (simp add: distancia_minima_def)

lemma dm_exists:
  assumes "v \<in> caminos g s n"
  shows "\<exists>d\<le>n. distancia_minima g s v d"
proof -
  let ?d = "LEAST j. v \<in> caminos g s j"
  have "v \<in> caminos g s ?d" using assms by (rule LeastI)
  moreover have "\<forall>j<?d. v \<notin> caminos g s j" using not_less_Least by blast
  moreover have "?d \<le> n" using assms by (rule Least_le)
  ultimately show ?thesis unfolding distancia_minima_def by blast
qed

lemma dm_pred:
  assumes "distancia_minima g s v (Suc d)"
  shows "\<exists>p. distancia_minima g s p d \<and> v \<in> set (dd_get g p)"
proof -
  from assms obtain p where p: "p \<in> caminos g s d" "v \<in> set (dd_get g p)"
    by (auto simp: distancia_minima_def)
  from dm_exists [OF p(1)] obtain d' where d': "d' \<le> d" "distancia_minima g s p d'" by blast
  have "d' = d"
  proof (rule ccontr)
    assume "d' \<noteq> d"
    with d' have lt: "Suc d' < Suc d" by simp
    from d'(2) p(2) have "v \<in> caminos g s (Suc d')" by (auto simp: distancia_minima_def)
    with assms lt show False unfolding distancia_minima_def by blast
  qed
  with d' p show ?thesis by blast
qed

lemma dm_succ:
  assumes "distancia_minima g s p d" "v \<in> set (dd_get g p)"
  shows "\<exists>d'\<le>Suc d. distancia_minima g s v d'"
proof -
  from assms have "v \<in> caminos g s (Suc d)" by (auto simp: distancia_minima_def)
  then show ?thesis by (rule dm_exists)
qed

subsection \<open>The invariant is kept by bfs\_niveles\<close>

lemma bfs_vecinos_efecto:
  "bfs_vecinos l vs (vis, cola, niv) = (vis', cola', niv') \<Longrightarrow>
     set vis' = set vis \<union> set vs
     \<and> (\<exists>ns. cola' = cola @ map (\<lambda>v. (v, l + 1)) ns \<and> set ns = set vs - set vis)
     \<and> (\<forall>l'. set (dd_get niv' l') =
              set (dd_get niv l') \<union> (if l' = l + 1 then set vs - set vis else {}))"
proof (induction vs arbitrary: vis cola niv)
  case Nil
  then show ?case by simp
next
  case (Cons v vs)
  show ?case
  proof (cases "v \<in> set vis")
    case True
    with Cons.prems have "bfs_vecinos l vs (vis, cola, niv) = (vis', cola', niv')" by simp
    from Cons.IH [OF this] obtain ns where
      v: "set vis' = set vis \<union> set vs"
      and q: "cola' = cola @ map (\<lambda>v. (v, l + 1)) ns"
      and ns: "set ns = set vs - set vis"
      and n: "\<forall>l'. set (dd_get niv' l') = set (dd_get niv l') \<union>
                 (if l' = l + 1 then set vs - set vis else {})"
      by blast
    have "set vis' = set vis \<union> set (v # vs)" using v True by auto
    moreover have "set ns = set (v # vs) - set vis" using ns True by auto
    moreover have "\<forall>l'. set (dd_get niv' l') =
        set (dd_get niv l') \<union> (if l' = l + 1 then set (v # vs) - set vis else {})"
    proof
      fix l'
      have "set (v # vs) - set vis = set vs - set vis" using True by auto
      with n show "set (dd_get niv' l') =
        set (dd_get niv l') \<union> (if l' = l + 1 then set (v # vs) - set vis else {})"
        by simp
    qed
    ultimately show ?thesis using q by blast
  next
    case False
    with Cons.prems have
      "bfs_vecinos l vs (set_add v vis, cola @ [(v, l + 1)], dd_add (l + 1) v niv)
         = (vis', cola', niv')" by simp
    from Cons.IH [OF this] obtain ns where
      v: "set vis' = set (set_add v vis) \<union> set vs"
      and q: "cola' = (cola @ [(v, l + 1)]) @ map (\<lambda>v. (v, l + 1)) ns"
      and ns: "set ns = set vs - set (set_add v vis)"
      and n: "\<forall>l'. set (dd_get niv' l') = set (dd_get (dd_add (l + 1) v niv) l') \<union>
                 (if l' = l + 1 then set vs - set (set_add v vis) else {})"
      by blast
    have "set vis' = set vis \<union> set (v # vs)" using v by auto
    moreover have "cola' = cola @ map (\<lambda>v. (v, l + 1)) (v # ns)" using q by simp
    moreover have "set (v # ns) = set (v # vs) - set vis" using ns False by auto
    moreover have "\<forall>l'. set (dd_get niv' l') =
        set (dd_get niv l') \<union> (if l' = l + 1 then set (v # vs) - set vis else {})"
    proof
      fix l'
      from n have "set (dd_get niv' l') = set (dd_get (dd_add (l + 1) v niv) l') \<union>
                 (if l' = l + 1 then set vs - set (set_add v vis) else {})" ..
      then show "set (dd_get niv' l') =
        set (dd_get niv l') \<union> (if l' = l + 1 then set (v # vs) - set vis else {})"
        using False by (cases "l' = l + 1") (auto simp: dd_get_dd_add)
    qed
    ultimately show ?thesis by blast
  qed
qed

lemma bfs_inv_inicial: "bfs_inv g s k ([s], [(s, 0)], [])"
  by (simp add: bfs_inv_def inv_cola_def inv_orden_def inv_niveles_def inv_registro_def
        inv_procesados_def inv_frontera_def)

lemma bfs_inv_saltar:
  assumes inv: "bfs_inv g s k (vis, (a, l) # cola, niv)" and lk: "l \<ge> k"
  shows "bfs_inv g s k (vis, cola, niv)"
proof -
  from inv have i1: "s \<in> set vis"
    and i2: "inv_cola g s k vis ((a, l) # cola)"
    and i3: "inv_orden ((a, l) # cola)"
    and i5: "inv_niveles g s k vis niv"
    and i6: "inv_registro s vis niv"
    and i7: "inv_procesados g s k vis ((a, l) # cola)"
    and i8: "inv_frontera g s vis ((a, l) # cola)"
    by (simp_all add: bfs_inv_def)
  from i2 have la: "0 \<le> l" "distancia_minima g s a (nat l)"
    by (simp_all add: inv_cola_def)
  have c2: "inv_cola g s k vis cola"
    using i2 by (simp add: inv_cola_def)
  have c3: "inv_orden cola"
    using i3 by (simp add: inv_orden_def)
  have c7: "inv_procesados g s k vis cola"
    unfolding inv_procesados_def
  proof (intro allI impI)
    fix p d
    assume p: "p \<in> set vis" "p \<notin> fst ` set cola" "distancia_minima g s p d" "int d < k"
    show "set (dd_get g p) \<subseteq> set vis"
    proof (cases "p = a")
      case True
      with p(3) la(2) have "d = nat l" by (auto dest: dm_unique)
      with la(1) have "int d = l" by simp
      with lk p(4) have False by linarith
      then show ?thesis ..
    next
      case False
      with p(2) have "p \<notin> fst ` set ((a, l) # cola)" by simp
      with p i7 show ?thesis unfolding inv_procesados_def by blast
    qed
  qed
  have c8: "inv_frontera g s vis cola"
    unfolding inv_frontera_def
  proof (intro allI impI)
    fix a2 l2 rest w d
    assume h: "cola = (a2, l2) # rest" "distancia_minima g s w d" "int d \<le> l2"
    from h(1) i3 have "l \<le> l2" by (simp add: inv_orden_def)
    moreover from h(1) c2 have "l2 \<le> max k 0" by (simp add: inv_cola_def)
    ultimately have "l2 = l" using lk la(1) by simp
    with h i8 show "w \<in> set vis" unfolding inv_frontera_def by blast
  qed
  show ?thesis
    using i1 c2 c3 i5 i6 c7 c8 by (simp add: bfs_inv_def)
qed

lemma bfs_inv_procesar:
  assumes inv: "bfs_inv g s k (vis, (a, l) # cola, niv)" and lk: "l < k"
    and st: "bfs_vecinos l (dd_get g a) (vis, cola, niv) = (vis', cola', niv')"
  shows "bfs_inv g s k (vis', cola', niv')"
proof -
  from inv have i1: "s \<in> set vis"
    and i2: "inv_cola g s k vis ((a, l) # cola)"
    and i3: "inv_orden ((a, l) # cola)"
    and i5: "inv_niveles g s k vis niv"
    and i6: "inv_registro s vis niv"
    and i7: "inv_procesados g s k vis ((a, l) # cola)"
    and i8: "inv_frontera g s vis ((a, l) # cola)"
    by (simp_all add: bfs_inv_def)
  from i2 have la: "0 \<le> l" "distancia_minima g s a (nat l)" "a \<in> set vis"
    by (simp_all add: inv_cola_def)
  from i8 have front: "\<And>w d. distancia_minima g s w d \<Longrightarrow> int d \<le> l \<Longrightarrow> w \<in> set vis"
    unfolding inv_frontera_def by blast
  from bfs_vecinos_efecto [OF st] obtain ns where
    V: "set vis' = set vis \<union> set (dd_get g a)"
    and Q: "cola' = cola @ map (\<lambda>v. (v, l + 1)) ns"
    and NS: "set ns = set (dd_get g a) - set vis"
    and N: "\<And>l'. set (dd_get niv' l') =
              set (dd_get niv l') \<union> (if l' = l + 1 then set (dd_get g a) - set vis else {})"
    by blast
  have nuevo: "distancia_minima g s v (nat (l + 1))" if "v \<in> set ns" for v
  proof -
    from that NS have v: "v \<in> set (dd_get g a)" "v \<notin> set vis" by auto
    from dm_succ [OF la(2) v(1)] obtain d' where
      d': "d' \<le> Suc (nat l)" "distancia_minima g s v d'" by blast
    have "\<not> d' \<le> nat l"
    proof
      assume "d' \<le> nat l"
      with la(1) have "int d' \<le> l" by linarith
      from front [OF d'(2) this] v(2) show False by simp
    qed
    with d'(1) have "d' = Suc (nat l)" by simp
    also have "\<dots> = nat (l + 1)" using la(1) by (simp add: nat_add_distrib)
    finally show ?thesis using d'(2) by simp
  qed
  have lev: "l \<le> l'" "l' \<le> l + 1" if "l' \<in> snd ` set cola'" for l'
  proof -
    from that Q have "l' \<in> snd ` set cola \<or> l' = l + 1" by auto
    moreover have "l \<le> x \<and> x \<le> l + 1" if "x \<in> snd ` set cola" for x
      using i3 that by (auto simp: inv_orden_def)
    ultimately show "l \<le> l'" "l' \<le> l + 1" by auto
  qed
  have c1: "s \<in> set vis'" using i1 V by simp
  have c2: "inv_cola g s k vis' cola'"
    unfolding inv_cola_def
  proof (intro allI impI)
    fix v l'
    assume "(v, l') \<in> set cola'"
    with Q have "(v, l') \<in> set cola \<or> (v \<in> set ns \<and> l' = l + 1)" by auto
    then show "v \<in> set vis' \<and> 0 \<le> l' \<and> l' \<le> max k 0 \<and> distancia_minima g s v (nat l')"
    proof
      assume "(v, l') \<in> set cola"
      with i2 V show ?thesis by (simp add: inv_cola_def)
    next
      assume h: "v \<in> set ns \<and> l' = l + 1"
      with nuevo have "distancia_minima g s v (nat l')" by simp
      moreover from h NS V have "v \<in> set vis'" by auto
      ultimately show ?thesis using h la(1) lk by simp
    qed
  qed
  have c3: "inv_orden cola'"
    unfolding inv_orden_def
  proof (intro conjI allI impI)
    have "sorted (map snd cola)" using i3 by (simp add: inv_orden_def)
    moreover have "sorted (map snd (map (\<lambda>v. (v, l + 1)) ns))"
      by (simp add: comp_def sorted_wrt_iff_nth_less)
    moreover have "\<forall>x \<in> set (map snd cola). \<forall>y \<in> set (map snd (map (\<lambda>v. (v, l + 1)) ns)).
                     x \<le> y"
      using i3 by (auto simp: inv_orden_def)
    ultimately show "sorted (map snd cola')"
      unfolding Q map_append sorted_append by blast
  next
    fix l1 l2
    assume "l1 \<in> snd ` set cola'" "l2 \<in> snd ` set cola'"
    from lev(1) [OF this(1)] lev(2) [OF this(2)] show "l2 \<le> l1 + 1" by simp
  qed
  have c5: "inv_niveles g s k vis' niv'"
    unfolding inv_niveles_def
  proof (intro allI impI)
    fix l' v
    assume "v \<in> set (dd_get niv' l')"
    with N [of l'] have "v \<in> set (dd_get niv l') \<or> (l' = l + 1 \<and> v \<in> set ns)"
      using NS by (auto split: if_splits)
    then show "v \<in> set vis' \<and> 1 \<le> l' \<and> l' \<le> k \<and> distancia_minima g s v (nat l')"
    proof
      assume "v \<in> set (dd_get niv l')"
      with i5 V show ?thesis by (simp add: inv_niveles_def)
    next
      assume h: "l' = l + 1 \<and> v \<in> set ns"
      with nuevo have "distancia_minima g s v (nat l')" by simp
      moreover from h NS V have "v \<in> set vis'" by auto
      ultimately show ?thesis using h la(1) lk by simp
    qed
  qed
  have c6: "inv_registro s vis' niv'"
    unfolding inv_registro_def
  proof (intro allI impI)
    fix v
    assume "v \<in> set vis'"
    with V have "v \<in> set vis \<or> v \<in> set (dd_get g a) - set vis" by auto
    then show "v = s \<or> (\<exists>l. v \<in> set (dd_get niv' l))"
    proof
      assume "v \<in> set vis"
      with i6 have "v = s \<or> (\<exists>l. v \<in> set (dd_get niv l))" by (simp add: inv_registro_def)
      then show ?thesis
      proof
        assume "v = s"
        then show ?thesis ..
      next
        assume "\<exists>l. v \<in> set (dd_get niv l)"
        then obtain l0 where "v \<in> set (dd_get niv l0)" ..
        with N [of l0] have "v \<in> set (dd_get niv' l0)" by simp
        then show ?thesis by blast
      qed
    next
      assume "v \<in> set (dd_get g a) - set vis"
      with N [of "l + 1"] have "v \<in> set (dd_get niv' (l + 1))" by simp
      then show ?thesis by blast
    qed
  qed
  have c7: "inv_procesados g s k vis' cola'"
    unfolding inv_procesados_def
  proof (intro allI impI)
    fix p d
    assume p: "p \<in> set vis'" "p \<notin> fst ` set cola'" "distancia_minima g s p d" "int d < k"
    have "fst ` set cola' = fst ` set cola \<union> set ns"
      unfolding Q by (simp add: image_Un image_image)
    with p(2) have pq: "p \<notin> fst ` set cola" "p \<notin> set ns" by simp_all
    with p(1) V NS have pv: "p \<in> set vis" by auto
    show "set (dd_get g p) \<subseteq> set vis'"
    proof (cases "p = a")
      case True
      with V show ?thesis by simp
    next
      case False
      with pq(1) have "p \<notin> fst ` set ((a, l) # cola)" by simp
      with i7 pv p(3,4) have "set (dd_get g p) \<subseteq> set vis"
        unfolding inv_procesados_def by blast
      with V show ?thesis by auto
    qed
  qed
  have c8: "inv_frontera g s vis' cola'"
    unfolding inv_frontera_def
  proof (intro allI impI)
    fix a2 l2 rest w d
    assume h: "cola' = (a2, l2) # rest" "distancia_minima g s w d" "int d \<le> l2"
    from h(1) have "l2 \<in> snd ` set cola'" by (simp add: image_iff)
    from lev [OF this] have l2: "l \<le> l2" "l2 \<le> l + 1" .
    show "w \<in> set vis'"
    proof (cases "int d \<le> l")
      case True
      from front [OF h(2) this] V show ?thesis by simp
    next
      case False
      with h(3) l2 have dl: "int d = l + 1" "l2 = l + 1" by simp_all
      with la(1) obtain d0 where d0: "d = Suc d0" "int d0 = l" by (cases d) auto
      from dm_pred [OF h(2) [unfolded d0(1)]] obtain p where
        p: "distancia_minima g s p d0" "w \<in> set (dd_get g p)" by blast
      from front [OF p(1)] d0(2) have pv: "p \<in> set vis" by simp
      have "p \<notin> fst ` set cola'"
      proof
        assume "p \<in> fst ` set cola'"
        then obtain lp where lp: "(p, lp) \<in> set cola'" by auto
        with c2 have "0 \<le> lp" "distancia_minima g s p (nat lp)" by (simp_all add: inv_cola_def)
        with p(1) have "nat lp = d0" by (auto dest: dm_unique)
        with \<open>0 \<le> lp\<close> d0(2) have "lp = l" by simp
        moreover from c3 h(1) lp have "l2 \<le> lp" by (auto simp: inv_orden_def)
        ultimately show False using dl(2) by simp
      qed
      moreover from pv V have "p \<in> set vis'" by simp
      moreover from d0(2) lk have "int d0 < k" by simp
      ultimately have "set (dd_get g p) \<subseteq> set vis'"
        using c7 p(1) unfolding inv_procesados_def by blast
      with p(2) show ?thesis by auto
    qed
  qed
  show ?thesis
    using c1 c2 c3 c5 c6 c7 c8 by (simp add: bfs_inv_def)
qed

lemma bfs_bucle_inv:
  "bfs_inv g s k st \<Longrightarrow>
     bfs_inv g s k (bfs_bucle g k st) \<and> fst (snd (bfs_bucle g k st)) = []"
proof (induction g k st rule: bfs_bucle.induct)
  case (1 g k vis niv)
  then show ?case by simp
next
  case (2 g k vis a l cola niv)
  show ?case
  proof (cases "l \<ge> k")
    case True
    from bfs_inv_saltar [OF "2.prems" True] have "bfs_inv g s k (vis, cola, niv)" .
    from "2.IH"(1) [OF True this] True show ?thesis by simp
  next
    case False
    obtain vis' cola' niv' where
      st: "bfs_vecinos l (dd_get g a) (vis, cola, niv) = (vis', cola', niv')"
      by (cases "bfs_vecinos l (dd_get g a) (vis, cola, niv)") auto
    from False have "l < k" by simp
    from bfs_inv_procesar [OF "2.prems" this st]
    have "bfs_inv g s k (bfs_vecinos l (dd_get g a) (vis, cola, niv))" by (simp add: st)
    from "2.IH"(2) [OF False this] False show ?thesis by simp
  qed
qed

lemma bfs_final_cubre:
  assumes inv: "bfs_inv g s k (vis, [], niv)"
  shows "v \<in> caminos g s n \<Longrightarrow> int n \<le> k \<Longrightarrow> v \<in> set vis"
proof (induction n arbitrary: v)
  case 0
  with inv show ?case by (simp add: bfs_inv_def)
next
  case (Suc n)
  from Suc.prems(1) obtain p where p: "p \<in> caminos g s n" "v \<in> set (dd_get g p)" by auto
  from Suc.prems(2) have nk: "int n < k" by simp
  with Suc.IH [OF p(1)] have pv: "p \<in> set vis" by simp
  from dm_exists [OF p(1)] obtain d where d: "d \<le> n" "distancia_minima g s p d" by blast
  with nk have "int d < k" by simp
  with inv pv d(2) have "set (dd_get g p) \<subseteq> set vis"
    unfolding bfs_inv_def inv_procesados_def by simp
  with p(2) show ?case by auto
qed

lemma bfs_niveles_grafo_iff:
  "v \<in> set (dd_get (bfs_niveles_grafo g s k) l) \<longleftrightarrow>
     1 \<le> l \<and> l \<le> k \<and> distancia_minima g s v (nat l)"
proof -
  obtain vis cola niv where
    fin: "bfs_bucle g k ([s], [(s, 0)], []) = (vis, cola, niv)"
    by (cases "bfs_bucle g k ([s], [(s, 0)], [])") auto
  have "bfs_inv g s k (vis, cola, niv) \<and> fst (snd (vis, cola, niv)) = []"
    using bfs_bucle_inv [OF bfs_inv_inicial, of g s k] unfolding fin .
  then have inv: "bfs_inv g s k (vis, [], niv)" by auto
  have niv: "bfs_niveles_grafo g s k = niv" unfolding bfs_niveles_grafo_def fin by simp
  show ?thesis
  proof
    assume "v \<in> set (dd_get (bfs_niveles_grafo g s k) l)"
    with inv niv show "1 \<le> l \<and> l \<le> k \<and> distancia_minima g s v (nat l)"
      by (simp add: bfs_inv_def inv_niveles_def)
  next
    assume h: "1 \<le> l \<and> l \<le> k \<and> distancia_minima g s v (nat l)"
    then have "v \<in> caminos g s (nat l)" "int (nat l) \<le> k"
      by (simp_all add: distancia_minima_def)
    from bfs_final_cubre [OF inv this] have "v \<in> set vis" .
    moreover from h have "v \<noteq> s" by (auto dest: dm_unique [of g s s "nat l" 0])
    ultimately obtain l' where l': "v \<in> set (dd_get niv l')"
      using inv by (auto simp: bfs_inv_def inv_registro_def)
    with inv have "1 \<le> l'" "distancia_minima g s v (nat l')"
      by (simp_all add: bfs_inv_def inv_niveles_def)
    with h have "nat l' = nat l" by (auto dest: dm_unique)
    with \<open>1 \<le> l'\<close> h have "l' = l" by simp
    with l' niv show "v \<in> set (dd_get (bfs_niveles_grafo g s k) l)" by simp
  qed
qed

subsection \<open>The early exit of distancia\_entre\_usuarios against bfs\_niveles\<close>

text \<open>
  Both loops start from the same \<^verbatim>\<open>visitados\<close> and \<^verbatim>\<open>cola\<close> and move in step until the
  destination is first seen among the neighbours of the node taken from the queue: there
  the one returns and the other files the destination under the next level, for good.
\<close>

lemma dist_vecinos_bfs_vecinos:
  "x \<notin> set vis \<Longrightarrow>
     dist_vecinos x l vs (vis, cola) =
       (if x \<in> set vs then Inl (l + 1)
        else Inr (fst (bfs_vecinos l vs (vis, cola, niv)),
                  fst (snd (bfs_vecinos l vs (vis, cola, niv)))))"
proof (induction vs arbitrary: vis cola niv)
  case Nil
  show ?case by simp
next
  case (Cons v vs)
  show ?case
  proof (cases "v = x")
    case True
    then show ?thesis by simp
  next
    case False
    show ?thesis
    proof (cases "v \<in> set vis")
      case True
      with False Cons.IH [OF Cons.prems, of cola niv] show ?thesis by simp
    next
      case nv: False
      from False Cons.prems have "x \<notin> set (set_add v vis)" by simp
      from Cons.IH [OF this, of "cola @ [(v, l + 1)]" "dd_add (l + 1) v niv"] False nv
      show ?thesis by simp
    qed
  qed
qed

lemma bfs_bucle_niveles_mono:
  "v \<in> set (dd_get (snd (snd st)) l') \<Longrightarrow>
     v \<in> set (dd_get (snd (snd (bfs_bucle g k st))) l')"
proof (induction g k st rule: bfs_bucle.induct)
  case (1 g k vis niv)
  then show ?case by simp
next
  case (2 g k vis a l cola niv)
  show ?case
  proof (cases "l \<ge> k")
    case True
    with "2.IH"(1) "2.prems" show ?thesis by simp
  next
    case False
    obtain vis' cola' niv' where
      st: "bfs_vecinos l (dd_get g a) (vis, cola, niv) = (vis', cola', niv')"
      by (cases "bfs_vecinos l (dd_get g a) (vis, cola, niv)") auto
    from bfs_vecinos_efecto [OF st] "2.prems" have "v \<in> set (dd_get niv' l')" by simp
    with "2.IH"(2) [OF False] st False show ?thesis by simp
  qed
qed

lemma bfs_bucle_niveles_visitado:
  "v \<in> set (fst st) \<Longrightarrow> v \<in> set (dd_get (snd (snd (bfs_bucle g k st))) l') \<Longrightarrow>
     v \<in> set (dd_get (snd (snd st)) l')"
proof (induction g k st rule: bfs_bucle.induct)
  case (1 g k vis niv)
  then show ?case by simp
next
  case (2 g k vis a l cola niv)
  show ?case
  proof (cases "l \<ge> k")
    case True
    with "2.IH"(1) "2.prems" show ?thesis by simp
  next
    case False
    obtain vis' cola' niv' where
      st: "bfs_vecinos l (dd_get g a) (vis, cola, niv) = (vis', cola', niv')"
      by (cases "bfs_vecinos l (dd_get g a) (vis, cola, niv)") auto
    from bfs_vecinos_efecto [OF st] have
      V: "set vis' = set vis \<union> set (dd_get g a)"
      and N: "set (dd_get niv' l') =
                set (dd_get niv l') \<union> (if l' = l + 1 then set (dd_get g a) - set vis else {})"
      by blast+
    from "2.prems"(1) V have "v \<in> set (fst (vis', cola', niv'))" by simp
    moreover from "2.prems"(2) False st
    have "v \<in> set (dd_get (snd (snd (bfs_bucle g k (vis', cola', niv')))) l')" by simp
    ultimately have "v \<in> set (dd_get niv' l')"
      using "2.IH"(2) [OF False] st by simp
    with N "2.prems"(1) show ?thesis by (auto split: if_splits)
  qed
qed

lemma dist_bucle_bfs_bucle:
  "x \<notin> set (fst st) \<Longrightarrow> (\<forall>l'. x \<notin> set (dd_get (snd (snd st)) l')) \<Longrightarrow>
     (dist_bucle g x k (fst st, fst (snd st)) = - 1
        \<and> (\<forall>l'. x \<notin> set (dd_get (snd (snd (bfs_bucle g k st))) l')))
     \<or> (x \<in> set (dd_get (snd (snd (bfs_bucle g k st)))
                  (dist_bucle g x k (fst st, fst (snd st))))
        \<and> (\<forall>l'. x \<in> set (dd_get (snd (snd (bfs_bucle g k st))) l') \<longrightarrow>
                l' = dist_bucle g x k (fst st, fst (snd st))))"
proof (induction g k st rule: bfs_bucle.induct)
  case (1 g k vis niv)
  then show ?case by simp
next
  case (2 g k vis a l cola niv)
  show ?case
  proof (cases "l \<ge> k")
    case True
    with "2.IH"(1) "2.prems" show ?thesis by simp
  next
    case False
    obtain vis' cola' niv' where
      st: "bfs_vecinos l (dd_get g a) (vis, cola, niv) = (vis', cola', niv')"
      by (cases "bfs_vecinos l (dd_get g a) (vis, cola, niv)") auto
    from bfs_vecinos_efecto [OF st] have
      V: "set vis' = set vis \<union> set (dd_get g a)"
      and N: "\<And>l'. set (dd_get niv' l') =
                set (dd_get niv l') \<union> (if l' = l + 1 then set (dd_get g a) - set vis else {})"
      by blast+
    from "2.prems" have xv: "x \<notin> set vis" and xn: "\<And>l'. x \<notin> set (dd_get niv l')"
      by simp_all
    have bf: "bfs_bucle g k (vis, (a, l) # cola, niv) = bfs_bucle g k (vis', cola', niv')"
      using False st by simp
    have dv: "dist_vecinos x l (dd_get g a) (vis, cola) =
                (if x \<in> set (dd_get g a) then Inl (l + 1) else Inr (vis', cola'))"
      using dist_vecinos_bfs_vecinos [OF xv, of l "dd_get g a" cola niv] st by simp
    show ?thesis
    proof (cases "x \<in> set (dd_get g a)")
      case True
      with dv False have r: "dist_bucle g x k (vis, (a, l) # cola) = l + 1" by simp
      from True xv N [of "l + 1"] have "x \<in> set (dd_get niv' (l + 1))" by simp
      from bfs_bucle_niveles_mono [of x "(vis', cola', niv')" "l + 1" g k] this
      have x1: "x \<in> set (dd_get (snd (snd (bfs_bucle g k (vis', cola', niv')))) (l + 1))"
        by simp
      have x2: "l' = l + 1"
        if "x \<in> set (dd_get (snd (snd (bfs_bucle g k (vis', cola', niv')))) l')" for l'
      proof -
        from True V have "x \<in> set (fst (vis', cola', niv'))" by simp
        from bfs_bucle_niveles_visitado [OF this that] have "x \<in> set (dd_get niv' l')"
          by simp
        with N [of l'] xn [of l'] show ?thesis by (auto split: if_splits)
      qed
      from x1 x2 show ?thesis unfolding bf fst_conv snd_conv r by blast
    next
      case nx: False
      with dv False have r: "dist_bucle g x k (vis, (a, l) # cola) = dist_bucle g x k (vis', cola')"
        by simp
      from nx xv V have "x \<notin> set (fst (vis', cola', niv'))" by simp
      moreover from nx xn N have "\<forall>l'. x \<notin> set (dd_get (snd (snd (vis', cola', niv'))) l')"
        by simp
      ultimately show ?thesis
        using "2.IH"(2) [OF False] unfolding bf fst_conv snd_conv r st by simp
    qed
  qed
qed

lemma distancia_grafo_niveles:
  assumes "s \<noteq> x"
  shows "(distancia_grafo g s x k = - 1
            \<and> (\<forall>l. x \<notin> set (dd_get (bfs_niveles_grafo g s k) l)))
       \<or> (1 \<le> distancia_grafo g s x k
            \<and> x \<in> set (dd_get (bfs_niveles_grafo g s k) (distancia_grafo g s x k))
            \<and> (\<forall>l. x \<in> set (dd_get (bfs_niveles_grafo g s k) l) \<longrightarrow>
                   l = distancia_grafo g s x k))"
proof -
  have r: "distancia_grafo g s x k = dist_bucle g x k ([s], [(s, 0)])"
    using assms by (simp add: distancia_grafo_def)
  have "x \<notin> set (fst ([s], [(s, 0 :: int)], [] :: dict_sets))" using assms by simp
  moreover have "\<forall>l'. x \<notin> set (dd_get (snd (snd ([s], [(s, 0 :: int)], [] :: dict_sets))) l')"
    by simp
  ultimately have
    "(dist_bucle g x k ([s], [(s, 0)]) = - 1
        \<and> (\<forall>l'. x \<notin> set (dd_get (snd (snd (bfs_bucle g k ([s], [(s, 0)], [])))) l')))
     \<or> (x \<in> set (dd_get (snd (snd (bfs_bucle g k ([s], [(s, 0)], []))))
                  (dist_bucle g x k ([s], [(s, 0)])))
        \<and> (\<forall>l'. x \<in> set (dd_get (snd (snd (bfs_bucle g k ([s], [(s, 0)], [])))) l') \<longrightarrow>
                l' = dist_bucle g x k ([s], [(s, 0)])))"
    using dist_bucle_bfs_bucle [of x "([s], [(s, 0)], [])" g k] unfolding fst_conv snd_conv
    by blast
  then have d: "(distancia_grafo g s x k = - 1
            \<and> (\<forall>l. x \<notin> set (dd_get (bfs_niveles_grafo g s k) l)))
       \<or> (x \<in> set (dd_get (bfs_niveles_grafo g s k) (distancia_grafo g s x k))
            \<and> (\<forall>l. x \<in> set (dd_get (bfs_niveles_grafo g s k) l) \<longrightarrow>
                   l = distancia_grafo g s x k))"
    unfolding r bfs_niveles_grafo_def .
  then show ?thesis using bfs_niveles_grafo_iff [of x g s k] by blast
qed

lemma distancia_grafo_dm:
  assumes "s \<noteq> x" "distancia_minima g s x d" "int d \<le> k"
  shows "distancia_grafo g s x k = int d"
proof -
  from assms(1,2) have "d \<noteq> 0" by (cases d) auto
  with assms have "x \<in> set (dd_get (bfs_niveles_grafo g s k) (int d))"
    by (simp add: bfs_niveles_grafo_iff)
  with distancia_grafo_niveles [OF assms(1), of g k] show ?thesis by auto
qed

lemma distancia_grafo_inalcanzable:
  assumes "s \<noteq> x" "\<forall>d. int d \<le> k \<longrightarrow> x \<notin> caminos g s d"
  shows "distancia_grafo g s x k = - 1"
proof -
  have "x \<notin> set (dd_get (bfs_niveles_grafo g s k) l)" for l
    using assms(2) by (auto simp: bfs_niveles_grafo_iff distancia_minima_def)
  with distancia_grafo_niveles [OF assms(1), of g k] show ?thesis by blast
qed

subsection \<open>calcular\_puntuacion on a built graph\<close>

lemma distancia_minima_code [code]:
  "distancia_minima g s v d \<longleftrightarrow>
     v \<in> caminos g s d \<and> list_all (\<lambda>j. v \<notin> caminos g s j) [0..<d]"
  by (auto simp: distancia_minima_def list_all_iff)

lemma calcular_puntuacion_construido:
  assumes "construido gs"
  shows "fst (calcular_puntuacion db gs u c) =
     \<lparr>puntuacion =
        int (length (set_intersection (dd_get (grafo gs) u) (dd_get (grafo gs) c))) * 10
        + (if distancia_grafo (grafo gs) u c 5 = 2 then 5
           else if distancia_grafo (grafo gs) u c 5 = 3 then 2
           else if distancia_grafo (grafo gs) u c 5 > 3 then 1 else 0),
      amigos_comun = set_intersection (dd_get (grafo gs) u) (dd_get (grafo gs) c),
      num_amigos_comun =
        int (length (set_intersection (dd_get (grafo gs) u) (dd_get (grafo gs) c))),
      distancia = distancia_grafo (grafo gs) u c 5\<rparr>"
  using assms
  by (simp add: calcular_puntuacion_def amigos_en_comun_def distancia_entre_usuarios_def
        Let_def)

lemma set_set_intersection [simp]: "set (set_intersection s t) = set s \<inter> set t"
  by (auto simp: set_intersection_def)

lemma distinct_set_intersection: "distinct s \<Longrightarrow> distinct (set_intersection s t)"
  by (simp add: set_intersection_def)

subsection \<open>The candidate pool of obtener\_recomendaciones\<close>

lemma set_set_update [simp]: "set (set_update s t) = set s \<union> set t"
  unfolding set_update_def by (induction t arbitrary: s) auto

lemma distinct_set_update: "distinct s \<Longrightarrow> distinct (set_update s t)"
  unfolding set_update_def by (induction t arbitrary: s) (simp_all add: distinct_set_add)

lemma set_set_of_list [simp]: "set (set_of_list xs) = set xs"
  using set_set_update [of "[]" xs] by (simp add: set_of_list_def set_update_def)

lemma set_set_difference [simp]: "set (set_difference s t) = set s - set t"
  by (auto simp: set_difference_def)

lemma distinct_set_difference: "distinct s \<Longrightarrow> distinct (set_difference s t)"
  by (simp add: set_difference_def)

lemma set_candidatos_niveles:
  "set (candidatos_niveles niveles) =
     set (dd_get niveles 2) \<union> set (dd_get niveles 3) \<union> set (dd_get niveles 4)"
  by (simp add: candidatos_niveles_def)

lemma distinct_candidatos_niveles: "distinct (candidatos_niveles niveles)"
  by (simp add: candidatos_niveles_def distinct_set_update)

lemma length_candidatos_niveles:
  "length (candidatos_niveles niveles) =
     card (set (dd_get niveles 2) \<union> set (dd_get niveles 3) \<union> set (dd_get niveles 4))"
  using distinct_card [OF distinct_candidatos_niveles, of niveles]
  by (simp add: set_candidatos_niveles)

lemma set_ampliar_candidatos:
  "set (ampliar_candidatos db amigos uid limite cs) =
     (if int (length cs) < limite
      then set cs \<union> (user_id ` set (usuarios db) - set amigos - {uid} - set cs)
      else set cs)"
  by (simp add: ampliar_candidatos_def Let_def)

lemma set_excluir_pendientes:
  "set (excluir_pendientes db usuario cs) =
     set cs - set (solicitudes_enviadas db usuario) - set (solicitudes_recibidas db usuario)"
  by (simp add: excluir_pendientes_def)

lemma user_get_Inr: "user_get db x = Inr u \<Longrightarrow> user_id u = x \<and> u \<in> set (usuarios db)"
  by (auto simp: user_get_def find_Some_iff split: option.splits)

lemma puntuar_candidatos_ids:
  "r \<in> set (fst (puntuar_candidatos db gs uid cs)) \<Longrightarrow> user_id (rec_usuario r) \<in> set cs"
proof (induction cs arbitrary: gs)
  case Nil
  then show ?case by simp
next
  case (Cons c cs)
  show ?case
  proof (cases "user_get db c")
    case (Inl e)
    with Cons show ?thesis by auto
  next
    case (Inr cu)
    from user_get_Inr [OF Inr] have cu: "user_id cu = c" by simp
    obtain datos gs1 where d: "calcular_puntuacion db gs uid c = (datos, gs1)"
      by (cases "calcular_puntuacion db gs uid c") auto
    obtain rs gs2 where rs: "puntuar_candidatos db gs1 uid cs = (rs, gs2)"
      by (cases "puntuar_candidatos db gs1 uid cs") auto
    from Cons.prems Inr d rs have "user_id (rec_usuario r) = c \<or> r \<in> set rs"
      using cu by auto
    then show ?thesis
    proof
      assume "user_id (rec_usuario r) = c"
      then show ?thesis by simp
    next
      assume "r \<in> set rs"
      with rs Cons.IH [of gs1] show ?thesis by simp
    qed
  qed
qed

lemma set_slice_hasta: "set (slice_hasta xs n) \<subseteq> set xs"
  by (auto simp: slice_hasta_def dest: in_set_takeD)

lemma candidatos_antes_de_solicitudes_eq:
  "fst (candidatos_antes_de_solicitudes db gs usuario limite) =
     ampliar_candidatos db (dd_get (grafo (construir_grafo db gs)) (user_id usuario))
       (user_id usuario) limite
       (candidatos_niveles (bfs_niveles_grafo (grafo (construir_grafo db gs)) (user_id usuario) 4))"
  by (simp add: candidatos_antes_de_solicitudes_def obtener_amigos_def bfs_niveles_def Let_def)

lemma obtener_recomendaciones_ids:
  assumes "obtener_recomendaciones db gs usuario limite = Inr (recs, gs')" "r \<in> set recs"
  shows "user_id (rec_usuario r) \<in>
           set (excluir_pendientes db usuario
                  (fst (candidatos_antes_de_solicitudes db gs usuario limite)))"
proof -
  obtain cs gs2 where c: "candidatos_antes_de_solicitudes db gs usuario limite = (cs, gs2)"
    by (cases "candidatos_antes_de_solicitudes db gs usuario limite") auto
  obtain rs gs3 where
    p: "puntuar_candidatos db gs2 (user_id usuario) (excluir_pendientes db usuario cs) = (rs, gs3)"
    by (cases "puntuar_candidatos db gs2 (user_id usuario) (excluir_pendientes db usuario cs)")
      auto
  from assms(1) c p have "recs = slice_hasta (sort_key (\<lambda>x. - rec_puntuacion x) rs) limite"
    by (simp add: obtener_recomendaciones_def)
  with assms(2) set_slice_hasta have "r \<in> set rs" by fastforce
  with p puntuar_candidatos_ids [of r db gs2 "user_id usuario" "excluir_pendientes db usuario cs"]
  show ?thesis by (simp add: c)
qed

lemma set_solicitudes_enviadas:
  "set (solicitudes_enviadas db usuario) =
     {x. \<exists>sol \<in> set (solicitudes db). de_usuario_id sol = user_id usuario \<and>
           estado sol = ''pendiente'' \<and> para_usuario_id sol = x}"
  by (auto simp: solicitudes_enviadas_def)

lemma set_solicitudes_recibidas:
  "set (solicitudes_recibidas db usuario) =
     {x. \<exists>sol \<in> set (solicitudes db). para_usuario_id sol = user_id usuario \<and>
           estado sol = ''pendiente'' \<and> de_usuario_id sol = x}"
  by (auto simp: solicitudes_recibidas_def)

lemma nivel_no_origen_ni_amigo:
  assumes "v \<in> set (dd_get (bfs_niveles_grafo g s k) l)" "2 \<le> l"
  shows "v \<noteq> s \<and> v \<notin> set (dd_get g s)"
proof -
  from assms(1) have dm: "distancia_minima g s v (nat l)" by (simp add: bfs_niveles_grafo_iff)
  have "v \<noteq> s"
  proof
    assume "v = s"
    with dm have "distancia_minima g s s (nat l)" by simp
    moreover have "distancia_minima g s s 0" by simp
    ultimately have "nat l = 0" by (rule dm_unique)
    with assms(2) show False by simp
  qed
  moreover have "v \<notin> set (dd_get g s)"
  proof
    assume "v \<in> set (dd_get g s)"
    then have "v \<in> caminos g s (Suc 0)" by simp
    moreover from assms(2) have "Suc 0 < nat l" by simp
    ultimately show False using dm unfolding distancia_minima_def by blast
  qed
  ultimately show ?thesis ..
qed

lemma obtener_recomendaciones_Inr:
  "obtener_recomendaciones db gs usuario limite =
     Inr (projr (obtener_recomendaciones db gs usuario limite))"
  by (simp add: obtener_recomendaciones_def Let_def split_def)

lemma bfs_niveles_grafo_aislado: "dd_get g s = [] \<Longrightarrow> bfs_niveles_grafo g s k = []"
  by (simp add: bfs_niveles_grafo_def)

lemma user_get_Inl_iff: "user_get db x = Inl e \<longleftrightarrow> x \<notin> user_id ` set (usuarios db)"
proof (cases "find (\<lambda>u. user_id u = x) (usuarios db)")
  case None
  then have "x \<notin> user_id ` set (usuarios db)" by (auto simp: find_None_iff)
  with None show ?thesis by (cases e) (simp add: user_get_def)
next
  case (Some u)
  then have "user_id u = x" "u \<in> set (usuarios db)"
    by (auto simp: find_Some_iff)
  then have "x \<in> user_id ` set (usuarios db)" by auto
  with Some show ?thesis by (simp add: user_get_def)
qed

lemma puntuar_candidatos_map_ids:
  "map (\<lambda>r. user_id (rec_usuario r)) (fst (puntuar_candidatos db gs uid cs)) =
     filter (\<lambda>c. c \<in> user_id ` set (usuarios db)) cs"
proof (induction cs arbitrary: gs)
  case Nil
  show ?case by simp
next
  case (Cons c cs)
  show ?case
  proof (cases "user_get db c")
    case (Inl e)
    then have "c \<notin> user_id ` set (usuarios db)" by (simp add: user_get_Inl_iff)
    with Inl Cons.IH [of gs] show ?thesis by simp
  next
    case (Inr cu)
    from user_get_Inr [OF Inr] have cu: "user_id cu = c" "c \<in> user_id ` set (usuarios db)"
      by auto
    obtain datos gs1 where d: "calcular_puntuacion db gs uid c = (datos, gs1)"
      by (cases "calcular_puntuacion db gs uid c") auto
    obtain rs gs2 where rs: "puntuar_candidatos db gs1 uid cs = (rs, gs2)"
      by (cases "puntuar_candidatos db gs1 uid cs") auto
    from Cons.IH [of gs1] rs have
      "map (\<lambda>r. user_id (rec_usuario r)) rs = filter (\<lambda>c. c \<in> user_id ` set (usuarios db)) cs"
      by simp
    with Inr d rs cu show ?thesis by simp
  qed
qed

lemma obtener_recomendaciones_eq:
  "obtener_recomendaciones db gs usuario limite =
     Inr (slice_hasta
            (sort_key (\<lambda>x. - rec_puntuacion x)
               (fst (puntuar_candidatos db
                       (snd (candidatos_antes_de_solicitudes db gs usuario limite))
                       (user_id usuario)
                       (excluir_pendientes db usuario
                          (fst (candidatos_antes_de_solicitudes db gs usuario limite))))))
            limite,
          snd (puntuar_candidatos db
                 (snd (candidatos_antes_de_solicitudes db gs usuario limite))
                 (user_id usuario)
                 (excluir_pendientes db usuario
                    (fst (candidatos_antes_de_solicitudes db gs usuario limite)))))"
  by (simp add: obtener_recomendaciones_def split_def Let_def)

section \<open>The claims\<close>

text \<open>
  C8. After \<^verbatim>\<open>construir_grafo()\<close>, when every stored friendship joins two distinct users,
  the adjacency is symmetric and has no self-loop; so \<^verbatim>\<open>obtener_amigos(A)\<close> never contains
  \<open>A\<close>, and \<^verbatim>\<open>distancia_entre_usuarios(A, A, max)\<close> is 0 for every \<open>A\<close> and \<open>max\<close>.
\<close>

theorem grafo_simetrico_sin_lazos:
  assumes "\<forall>e \<in> set (amistades db). usuario1_id e \<noteq> usuario2_id e"
  shows "(\<forall>a b. b \<in> set (dd_get (grafo (construir_grafo db gs)) a) \<longleftrightarrow>
                 a \<in> set (dd_get (grafo (construir_grafo db gs)) b))
       \<and> (\<forall>a. a \<notin> set (dd_get (grafo (construir_grafo db gs)) a))
       \<and> (\<forall>a. a \<notin> set (fst (obtener_amigos db (construir_grafo db gs) a)))
       \<and> (\<forall>a m. fst (distancia_entre_usuarios db (construir_grafo db gs) a a m) = 0)"
proof -
  have sym: "arista db a b \<longleftrightarrow> arista db b a" for a b
    by (auto simp: arista_def)
  have irr: "\<not> arista db a a" for a
    using assms by (auto simp: arista_def)
  show ?thesis
    using sym irr
    by (simp add: construir_grafo_vecinos obtener_amigos_def Let_def
          distancia_entre_usuarios_def distancia_grafo_def)
qed

theorem grafo_simetrico_sin_lazos_witness:
  "(3 \<in> set (dd_get (grafo (construir_grafo db_prueba grafo_social_init)) 5) \<longleftrightarrow>
    5 \<in> set (dd_get (grafo (construir_grafo db_prueba grafo_social_init)) 3))
   \<and> 5 \<notin> set (dd_get (grafo (construir_grafo db_prueba grafo_social_init)) 5)
   \<and> 5 \<notin> set (fst (obtener_amigos db_prueba (construir_grafo db_prueba grafo_social_init) 5))
   \<and> fst (distancia_entre_usuarios db_prueba
            (construir_grafo db_prueba grafo_social_init) 5 5 5) = 0
   \<and> fst (obtener_amigos db_prueba (construir_grafo db_prueba grafo_social_init) 5) = [3]"
proof -
  have h: "\<forall>e \<in> set (amistades db_prueba). usuario1_id e \<noteq> usuario2_id e"
    by (simp add: db_prueba_def)
  have "fst (obtener_amigos db_prueba (construir_grafo db_prueba grafo_social_init) 5) = [3]"
    by code_simp
  with grafo_simetrico_sin_lazos [OF h, of grafo_social_init] show ?thesis
    by blast
qed

text \<open>
  C10. Once the graph is built, \<^verbatim>\<open>obtener_amigos\<close>, \<^verbatim>\<open>bfs_niveles\<close>, \<^verbatim>\<open>amigos_en_comun\<close>
  and \<^verbatim>\<open>distancia_entre_usuarios\<close> leave the object, and so its adjacency mapping, as it
  was, for every argument: they read with \<^verbatim>\<open>get\<close>, which inserts no key.
\<close>

theorem consultas_no_modifican:
  assumes "construido gs"
  shows "snd (obtener_amigos db gs u) = gs
       \<and> snd (bfs_niveles db gs u k) = gs
       \<and> snd (amigos_en_comun db gs u v) = gs
       \<and> snd (distancia_entre_usuarios db gs u v m) = gs"
  using assms
  by (simp add: obtener_amigos_def bfs_niveles_def amigos_en_comun_def
        distancia_entre_usuarios_def Let_def)

theorem consultas_no_modifican_witness:
  "construido (construir_grafo db_aislados grafo_social_init)
   \<and> grafo (snd (obtener_amigos db_aislados
              (construir_grafo db_aislados grafo_social_init) 99)) = [(1, []), (2, [])]
   \<and> grafo (snd (bfs_niveles db_aislados
              (construir_grafo db_aislados grafo_social_init) 99 4)) = [(1, []), (2, [])]
   \<and> grafo (snd (amigos_en_comun db_aislados
              (construir_grafo db_aislados grafo_social_init) 99 1)) = [(1, []), (2, [])]
   \<and> grafo (snd (distancia_entre_usuarios db_aislados
              (construir_grafo db_aislados grafo_social_init) 99 1 5)) = [(1, []), (2, [])]"
proof -
  have h: "construido (construir_grafo db_aislados grafo_social_init)"
    by simp
  have g: "grafo (construir_grafo db_aislados grafo_social_init) = [(1, []), (2, [])]"
    by code_simp
  from consultas_no_modifican [OF h, of db_aislados 99 4 1 5] h g show ?thesis
    by simp
qed

text \<open>
  C3. For every origin and every bound \<open>k\<close> (so for every \<open>k \<ge> 0\<close>), the level sets of
  \<^verbatim>\<open>bfs_niveles(origin, k)\<close> are pairwise disjoint, the set at each level \<open>l\<close> with
  \<open>1 \<le> l \<le> k\<close> is exactly the set of nodes at shortest-path distance \<open>l\<close> from the origin in
  the built graph, the origin is in no level, and a node of a level has its distance as
  that level, which is at most \<open>k\<close>: no node farther than \<open>k\<close> is in any level.
\<close>

theorem bfs_niveles_particion:
  fixes db :: base_datos and gs :: grafo_social and s k :: int
  defines "niveles \<equiv> fst (bfs_niveles db gs s k)"
    and "g \<equiv> grafo (snd (bfs_niveles db gs s k))"
  shows "(\<forall>l l'. l \<noteq> l' \<longrightarrow> set (dd_get niveles l) \<inter> set (dd_get niveles l') = {})
       \<and> (\<forall>l. 1 \<le> l \<and> l \<le> k \<longrightarrow>
              set (dd_get niveles l) = {v. distancia_minima g s v (nat l)})
       \<and> (\<forall>l. s \<notin> set (dd_get niveles l))
       \<and> (\<forall>l v d. v \<in> set (dd_get niveles l) \<longrightarrow> distancia_minima g s v d \<longrightarrow>
              1 \<le> l \<and> int d = l \<and> l \<le> k)"
proof -
  have niv: "niveles = bfs_niveles_grafo g s k"
    by (simp add: niveles_def g_def bfs_niveles_def Let_def)
  have iff: "\<And>v l. v \<in> set (dd_get niveles l) \<longleftrightarrow>
               1 \<le> l \<and> l \<le> k \<and> distancia_minima g s v (nat l)"
    unfolding niv by (rule bfs_niveles_grafo_iff)
  have disj: "\<forall>l l'. l \<noteq> l' \<longrightarrow> set (dd_get niveles l) \<inter> set (dd_get niveles l') = {}"
  proof (intro allI impI)
    fix l l' :: int
    assume ne: "l \<noteq> l'"
    show "set (dd_get niveles l) \<inter> set (dd_get niveles l') = {}"
    proof (rule ccontr)
      assume "set (dd_get niveles l) \<inter> set (dd_get niveles l') \<noteq> {}"
      then obtain v where "v \<in> set (dd_get niveles l)" "v \<in> set (dd_get niveles l')" by auto
      with iff have "1 \<le> l" "1 \<le> l'" "distancia_minima g s v (nat l)"
        "distancia_minima g s v (nat l')" by simp_all
      then have "l = l'" by (auto dest: dm_unique)
      with ne show False by simp
    qed
  qed
  have exact: "\<forall>l. 1 \<le> l \<and> l \<le> k \<longrightarrow>
                 set (dd_get niveles l) = {v. distancia_minima g s v (nat l)}"
    using iff by auto
  have orig: "\<forall>l. s \<notin> set (dd_get niveles l)"
  proof
    fix l
    show "s \<notin> set (dd_get niveles l)"
    proof
      assume "s \<in> set (dd_get niveles l)"
      with iff have "1 \<le> l" "distancia_minima g s s (nat l)" by simp_all
      then show False by (auto dest: dm_unique [of g s s _ 0])
    qed
  qed
  have bound: "\<forall>l v d. v \<in> set (dd_get niveles l) \<longrightarrow> distancia_minima g s v d \<longrightarrow>
                 1 \<le> l \<and> int d = l \<and> l \<le> k"
  proof (intro allI impI)
    fix l v d
    assume "v \<in> set (dd_get niveles l)" and d: "distancia_minima g s v d"
    with iff have l: "1 \<le> l" "l \<le> k" "distancia_minima g s v (nat l)" by simp_all
    from dm_unique [OF d l(3)] l(1) have "int d = l" by simp
    with l show "1 \<le> l \<and> int d = l \<and> l \<le> k" by simp
  qed
  from disj exact orig bound show ?thesis by blast
qed

theorem bfs_niveles_particion_witness:
  "fst (bfs_niveles db_prueba grafo_social_init 5 2) = [(1, [3]), (2, [1, 4])]
   \<and> {v. distancia_minima (grafo (snd (bfs_niveles db_prueba grafo_social_init 5 2))) 5 v 2}
       = {1, 4}
   \<and> {v. distancia_minima (grafo (snd (bfs_niveles db_prueba grafo_social_init 5 2))) 5 v 1}
       = {3}"
proof -
  have n: "fst (bfs_niveles db_prueba grafo_social_init 5 2) = [(1, [3]), (2, [1, 4])]"
    by code_simp
  from bfs_niveles_particion [of db_prueba grafo_social_init 5 2]
  have "\<forall>l. 1 \<le> l \<and> l \<le> 2 \<longrightarrow>
          set (dd_get (fst (bfs_niveles db_prueba grafo_social_init 5 2)) l) =
          {v. distancia_minima (grafo (snd (bfs_niveles db_prueba grafo_social_init 5 2))) 5 v
                (nat l)}"
    by blast
  from this [rule_format, of 1] this [rule_format, of 2] n show ?thesis
    by (simp add: dd_get_def)
qed

text \<open>
  C4. \<^verbatim>\<open>distancia_entre_usuarios(origin, X, max)\<close> is 0 when \<open>origin = X\<close>; otherwise, when \<open>X\<close>
  is in some level of \<^verbatim>\<open>bfs_niveles(origin, max)\<close>, it is the smallest level that holds \<open>X\<close>,
  and it is the sentinel \<open>- 1\<close> exactly when \<open>X\<close> is in no level up to \<open>max\<close>: the early exit
  returns what reading the level off the full traversal returns.
\<close>

theorem distancia_es_nivel_bfs:
  fixes db :: base_datos and gs :: grafo_social and s x k :: int
  defines "r \<equiv> fst (distancia_entre_usuarios db gs s x k)"
    and "niveles \<equiv> fst (bfs_niveles db gs s k)"
  shows "(s = x \<longrightarrow> r = 0)
       \<and> (s \<noteq> x \<longrightarrow>
            ((\<exists>l. x \<in> set (dd_get niveles l)) \<longrightarrow>
               x \<in> set (dd_get niveles r) \<and> (\<forall>l. x \<in> set (dd_get niveles l) \<longrightarrow> r \<le> l))
            \<and> (r = - 1 \<longleftrightarrow> (\<forall>l. l \<le> k \<longrightarrow> x \<notin> set (dd_get niveles l))))"
proof -
  have eq: "s = x \<longrightarrow> r = 0"
    by (simp add: r_def distancia_entre_usuarios_def distancia_grafo_def Let_def)
  have neq: "((\<exists>l. x \<in> set (dd_get niveles l)) \<longrightarrow>
               x \<in> set (dd_get niveles r) \<and> (\<forall>l. x \<in> set (dd_get niveles l) \<longrightarrow> r \<le> l))
            \<and> (r = - 1 \<longleftrightarrow> (\<forall>l. l \<le> k \<longrightarrow> x \<notin> set (dd_get niveles l)))"
    if ne: "s \<noteq> x"
  proof -
    let ?g = "grafo (asegurar_construido db gs)"
    have r: "r = distancia_grafo ?g s x k"
      by (simp add: r_def distancia_entre_usuarios_def Let_def)
    have n: "niveles = bfs_niveles_grafo ?g s k"
      by (simp add: niveles_def bfs_niveles_def Let_def)
    note d = distancia_grafo_niveles [OF ne, of ?g k, folded r n]
    have a: "(\<exists>l. x \<in> set (dd_get niveles l)) \<longrightarrow>
               x \<in> set (dd_get niveles r) \<and> (\<forall>l. x \<in> set (dd_get niveles l) \<longrightarrow> r \<le> l)"
      using d by auto
    have up: "l \<le> k" if "x \<in> set (dd_get niveles l)" for l
      using that unfolding n by (simp add: bfs_niveles_grafo_iff)
    have b: "r = - 1 \<longleftrightarrow> (\<forall>l. l \<le> k \<longrightarrow> x \<notin> set (dd_get niveles l))"
    proof
      assume "r = - 1"
      with d show "\<forall>l. l \<le> k \<longrightarrow> x \<notin> set (dd_get niveles l)" by auto
    next
      assume "\<forall>l. l \<le> k \<longrightarrow> x \<notin> set (dd_get niveles l)"
      with up have "\<forall>l. x \<notin> set (dd_get niveles l)" by blast
      with d show "r = - 1" by blast
    qed
    from a b show ?thesis ..
  qed
  from eq neq show ?thesis by blast
qed

theorem distancia_es_nivel_bfs_witness:
  "fst (distancia_entre_usuarios db_prueba grafo_social_init 5 6 5) = 4
   \<and> 6 \<in> set (dd_get (fst (bfs_niveles db_prueba grafo_social_init 5 5)) 4)
   \<and> 6 \<in> set (dd_get (fst (bfs_niveles db_prueba grafo_social_init 5 5))
                (fst (distancia_entre_usuarios db_prueba grafo_social_init 5 6 5)))"
proof -
  have n: "6 \<in> set (dd_get (fst (bfs_niveles db_prueba grafo_social_init 5 5)) 4)"
    by code_simp
  have r: "fst (distancia_entre_usuarios db_prueba grafo_social_init 5 6 5) = 4"
    by code_simp
  have "(5::int) \<noteq> 6" by simp
  with distancia_es_nivel_bfs [of 5 6 db_prueba grafo_social_init 5] n
  have "6 \<in> set (dd_get (fst (bfs_niveles db_prueba grafo_social_init 5 5))
                 (fst (distancia_entre_usuarios db_prueba grafo_social_init 5 6 5)))"
    by blast
  with n r show ?thesis by blast
qed

text \<open>
  C1, as stated, fails: \<^verbatim>\<open>calcular_puntuacion\<close> searches with the default bound
  \<^verbatim>\<open>max_distancia=5\<close>, so a candidate at distance 6 (pedro from sofia in the test data) gets
  the distance \<open>- 1\<close> and no bonus.
\<close>

theorem puntuacion_formula_counterexample:
  "distancia_minima (grafo (construir_grafo db_prueba grafo_social_init)) 5 8 6
   \<and> fst (calcular_puntuacion db_prueba (construir_grafo db_prueba grafo_social_init) 5 8)
       = \<lparr>puntuacion = 0, amigos_comun = [], num_amigos_comun = 0, distancia = - 1\<rparr>
   \<and> puntuacion (fst (calcular_puntuacion db_prueba
                        (construir_grafo db_prueba grafo_social_init) 5 8)) \<noteq> 10 * 0 + 1
   \<and> distancia (fst (calcular_puntuacion db_prueba
                       (construir_grafo db_prueba grafo_social_init) 5 8)) \<noteq> 6"
  by code_simp

text \<open>
  C1, amended. For every user \<open>u\<close> and candidate \<open>c\<close> at graph distance \<open>d\<close> from \<open>u\<close> with
  \<open>2 \<le> d \<le> 5\<close>, and with \<open>m\<close> common neighbours, \<^verbatim>\<open>calcular_puntuacion(u, c)\<close> on the built
  graph returns the score \<open>10 m\<close> plus 5 when \<open>d = 2\<close>, 2 when \<open>d = 3\<close>, 1 when \<open>d > 3\<close>,
  together with the common neighbours, their count \<open>m\<close> and the distance \<open>d\<close>.
\<close>

theorem puntuacion_formula:
  fixes db :: base_datos and gs0 :: grafo_social and u c :: int and d :: nat
  defines "gs \<equiv> construir_grafo db gs0"
  defines "g \<equiv> grafo gs"
    and "datos \<equiv> fst (calcular_puntuacion db gs u c)"
  defines "m \<equiv> card (set (dd_get g u) \<inter> set (dd_get g c))"
  assumes dm: "distancia_minima g u c d" and d2: "2 \<le> d" and d5: "d \<le> 5"
  shows "puntuacion datos =
           10 * int m + (if d = 2 then 5 else if d = 3 then 2 else if d > 3 then 1 else 0)
       \<and> set (amigos_comun datos) = set (dd_get g u) \<inter> set (dd_get g c)
       \<and> distinct (amigos_comun datos)
       \<and> num_amigos_comun datos = int m
       \<and> distancia datos = int d"
proof -
  have c: "construido gs" by (simp add: gs_def)
  have ne: "u \<noteq> c"
  proof
    assume "u = c"
    with dm have "distancia_minima g u u d" by simp
    moreover have "distancia_minima g u u 0" by simp
    ultimately have "d = 0" by (rule dm_unique)
    with d2 show False by simp
  qed
  from d5 have "int d \<le> 5" by simp
  from distancia_grafo_dm [OF ne dm this] have dist: "distancia_grafo g u c 5 = int d" .
  have dis: "distinct (set_intersection (dd_get g u) (dd_get g c))"
    unfolding g_def gs_def by (rule distinct_set_intersection) (rule construir_grafo_distinct)
  then have len: "length (set_intersection (dd_get g u) (dd_get g c)) = m"
    unfolding m_def using distinct_card [OF dis] by simp
  show ?thesis
    unfolding datos_def calcular_puntuacion_construido [OF c]
    using dist len dis d2 by (simp add: g_def [symmetric])
qed

theorem puntuacion_formula_witness:
  "distancia_minima (grafo (construir_grafo db_prueba grafo_social_init)) 5 4 2
   \<and> card (set (dd_get (grafo (construir_grafo db_prueba grafo_social_init)) 5)
           \<inter> set (dd_get (grafo (construir_grafo db_prueba grafo_social_init)) 4)) = 1
   \<and> puntuacion (fst (calcular_puntuacion db_prueba
                        (construir_grafo db_prueba grafo_social_init) 5 4)) = 15
   \<and> distancia (fst (calcular_puntuacion db_prueba
                       (construir_grafo db_prueba grafo_social_init) 5 4)) = 2"
proof -
  have h: "distancia_minima (grafo (construir_grafo db_prueba grafo_social_init)) 5 4 2"
    by code_simp
  have m: "card (set (dd_get (grafo (construir_grafo db_prueba grafo_social_init)) 5)
           \<inter> set (dd_get (grafo (construir_grafo db_prueba grafo_social_init)) 4)) = 1"
    by code_simp
  from puntuacion_formula [OF h] m h show ?thesis by simp
qed

text \<open>
  C5, as stated, fails: for an unreachable candidate the distance is \<open>- 1\<close>, which is not
  greater than 3, so no point is added (the class docstring: "Usuarios sin conexion: 0
  puntos").
\<close>

theorem puntuacion_sin_conexion_counterexample:
  "fst (calcular_puntuacion db_aislados (construir_grafo db_aislados grafo_social_init) 2 1)
       = \<lparr>puntuacion = 0, amigos_comun = [], num_amigos_comun = 0, distancia = - 1\<rparr>
   \<and> puntuacion (fst (calcular_puntuacion db_aislados
                        (construir_grafo db_aislados grafo_social_init) 2 1)) \<noteq> 10 * 0 + 1"
  by code_simp

text \<open>
  C5, amended. For every user \<open>u\<close> and candidate \<open>c \<noteq> u\<close> that no walk of at most 5 edges
  reaches from \<open>u\<close>, \<^verbatim>\<open>calcular_puntuacion(u, c)\<close> on the built graph returns the distance
  \<open>- 1\<close> and adds no distance bonus: the score is \<open>10 m\<close> for \<open>m\<close> common neighbours, and
  that is 0, since such a candidate has no neighbour in common with \<open>u\<close>.
\<close>

theorem puntuacion_sin_conexion:
  fixes db :: base_datos and gs0 :: grafo_social and u c :: int
  defines "gs \<equiv> construir_grafo db gs0"
  defines "g \<equiv> grafo gs"
    and "datos \<equiv> fst (calcular_puntuacion db gs u c)"
  assumes ne: "u \<noteq> c" and un: "\<forall>d. d \<le> 5 \<longrightarrow> c \<notin> caminos g u d"
  shows "distancia datos = - 1
       \<and> puntuacion datos = 10 * num_amigos_comun datos
       \<and> num_amigos_comun datos = int (card (set (dd_get g u) \<inter> set (dd_get g c)))
       \<and> puntuacion datos = 0"
proof -
  have c: "construido gs" by (simp add: gs_def)
  from un have "\<forall>d. int d \<le> 5 \<longrightarrow> c \<notin> caminos g u d" by simp
  from distancia_grafo_inalcanzable [OF ne this] have dist: "distancia_grafo g u c 5 = - 1" .
  have "set (dd_get g u) \<inter> set (dd_get g c) = {}"
  proof (rule ccontr)
    assume "set (dd_get g u) \<inter> set (dd_get g c) \<noteq> {}"
    then obtain w where w: "w \<in> set (dd_get g u)" "w \<in> set (dd_get g c)" by auto
    from w(2) have "arista db c w" unfolding g_def gs_def by (simp add: construir_grafo_vecinos)
    then have "arista db w c" by (auto simp: arista_def)
    then have "c \<in> set (dd_get g w)" unfolding g_def gs_def by (simp add: construir_grafo_vecinos)
    with w(1) have "c \<in> caminos g u (Suc (Suc 0))" by auto
    with un [rule_format, of "Suc (Suc 0)"] show False by simp
  qed
  then have e: "set_intersection (dd_get g u) (dd_get g c) = []"
    by (simp add: set_intersection_def filter_empty_conv disjoint_iff)
  then have k: "set (dd_get g u) \<inter> set (dd_get g c) = {}"
    using set_set_intersection [of "dd_get g u" "dd_get g c"] by simp
  show ?thesis
    unfolding datos_def calcular_puntuacion_construido [OF c]
    using dist e k by (simp add: g_def [symmetric])
qed

theorem puntuacion_sin_conexion_witness:
  "distancia (fst (calcular_puntuacion db_aislados
                    (construir_grafo db_aislados grafo_social_init) 2 1)) = - 1
   \<and> puntuacion (fst (calcular_puntuacion db_aislados
                    (construir_grafo db_aislados grafo_social_init) 2 1)) = 0"
proof -
  have g: "grafo (construir_grafo db_aislados grafo_social_init) = [(1, []), (2, [])]"
    by code_simp
  have "caminos [(1, []), (2, [])] 2 d = (if d = 0 then {2} else {})" for d
    by (induction d) (simp_all add: dd_get_def)
  then have a: "\<forall>d. d \<le> 5 \<longrightarrow>
                  1 \<notin> caminos (grafo (construir_grafo db_aislados grafo_social_init)) 2 d"
    unfolding g by simp
  have "(2::int) \<noteq> 1" by simp
  from puntuacion_sin_conexion [OF this a] show ?thesis by blast
qed

text \<open>
  C7. In \<^verbatim>\<open>obtener_recomendaciones(u, limit)\<close>, when the union of the levels 2, 3 and 4 of
  the traversal from \<open>u\<close> has fewer than \<open>limit\<close> elements, the candidate pool before the
  pending requests are taken out is that union plus every known user id except \<open>u\<close>, the
  direct friends of \<open>u\<close> and the ids already in the pool; otherwise the pool is the union.
  The pending requests are taken out of that pool afterwards: the method returns the
  truncation to \<open>limit\<close> of the sorted list of the records of exactly the ids of the pool,
  widened or not as above, that have no pending request with \<open>u\<close> and have a user row.
\<close>

theorem ampliacion_candidatos:
  fixes db :: base_datos and gs :: grafo_social and usuario :: user and limite :: int
  defines "gs0 \<equiv> construir_grafo db gs"
  defines "niveles \<equiv> fst (bfs_niveles db gs0 (user_id usuario) 4)"
    and "amigos \<equiv> fst (obtener_amigos db gs0 (user_id usuario))"
    and "pool \<equiv> fst (candidatos_antes_de_solicitudes db gs usuario limite)"
  defines "capas \<equiv> set (dd_get niveles 2) \<union> set (dd_get niveles 3) \<union> set (dd_get niveles 4)"
  shows "(int (card capas) < limite \<longrightarrow>
            set pool = capas \<union>
              (user_id ` set (usuarios db) - set amigos - {user_id usuario} - capas))
       \<and> (\<not> int (card capas) < limite \<longrightarrow> set pool = capas)
       \<and> set (excluir_pendientes db usuario pool) =
            set pool - set (solicitudes_enviadas db usuario)
                     - set (solicitudes_recibidas db usuario)
       \<and> (\<exists>recs gs'.
             obtener_recomendaciones db gs usuario limite =
               Inr (slice_hasta (sort_key (\<lambda>x. - rec_puntuacion x) recs) limite, gs')
             \<and> map (\<lambda>r. user_id (rec_usuario r)) recs =
                 filter (\<lambda>c. c \<in> user_id ` set (usuarios db))
                   (excluir_pendientes db usuario pool)
             \<and> (\<lambda>r. user_id (rec_usuario r)) ` set recs =
                 ((if int (card capas) < limite
                   then capas \<union>
                        (user_id ` set (usuarios db) - set amigos - {user_id usuario} - capas)
                   else capas)
                  - set (solicitudes_enviadas db usuario)
                  - set (solicitudes_recibidas db usuario))
                 \<inter> user_id ` set (usuarios db))"
proof -
  have n: "niveles = bfs_niveles_grafo (grafo gs0) (user_id usuario) 4"
    by (simp add: niveles_def gs0_def bfs_niveles_def Let_def)
  have a: "amigos = dd_get (grafo gs0) (user_id usuario)"
    by (simp add: amigos_def gs0_def obtener_amigos_def Let_def)
  have p: "pool = ampliar_candidatos db amigos (user_id usuario) limite
                    (candidatos_niveles niveles)"
    unfolding pool_def candidatos_antes_de_solicitudes_eq n a gs0_def ..
  have u: "set (candidatos_niveles niveles) = capas"
    by (simp add: capas_def set_candidatos_niveles)
  have l: "length (candidatos_niveles niveles) = card capas"
    by (simp add: capas_def length_candidatos_niveles)
  have sp: "set pool =
              (if int (card capas) < limite
               then capas \<union>
                    (user_id ` set (usuarios db) - set amigos - {user_id usuario} - capas)
               else capas)"
    unfolding p set_ampliar_candidatos u l ..
  have 1: "int (card capas) < limite \<longrightarrow>
            set pool = capas \<union>
              (user_id ` set (usuarios db) - set amigos - {user_id usuario} - capas)"
    using sp by simp
  have 2: "\<not> int (card capas) < limite \<longrightarrow> set pool = capas"
    using sp by simp
  have 3: "set (excluir_pendientes db usuario pool) =
            set pool - set (solicitudes_enviadas db usuario)
                     - set (solicitudes_recibidas db usuario)"
    by (rule set_excluir_pendientes)
  define gs2 where "gs2 = snd (candidatos_antes_de_solicitudes db gs usuario limite)"
  define recs where
    "recs = fst (puntuar_candidatos db gs2 (user_id usuario)
                   (excluir_pendientes db usuario pool))"
  define gs' where
    "gs' = snd (puntuar_candidatos db gs2 (user_id usuario)
                  (excluir_pendientes db usuario pool))"
  have r1: "obtener_recomendaciones db gs usuario limite =
              Inr (slice_hasta (sort_key (\<lambda>x. - rec_puntuacion x) recs) limite, gs')"
    unfolding recs_def gs'_def gs2_def pool_def by (rule obtener_recomendaciones_eq)
  have r2: "map (\<lambda>r. user_id (rec_usuario r)) recs =
              filter (\<lambda>c. c \<in> user_id ` set (usuarios db))
                (excluir_pendientes db usuario pool)"
    unfolding recs_def by (rule puntuar_candidatos_map_ids)
  have "(\<lambda>r. user_id (rec_usuario r)) ` set recs =
          set (map (\<lambda>r. user_id (rec_usuario r)) recs)" by simp
  also have "\<dots> = set (excluir_pendientes db usuario pool) \<inter> user_id ` set (usuarios db)"
    unfolding r2 by auto
  finally have r3: "(\<lambda>r. user_id (rec_usuario r)) ` set recs =
                 ((if int (card capas) < limite
                   then capas \<union>
                        (user_id ` set (usuarios db) - set amigos - {user_id usuario} - capas)
                   else capas)
                  - set (solicitudes_enviadas db usuario)
                  - set (solicitudes_recibidas db usuario))
                 \<inter> user_id ` set (usuarios db)"
    unfolding 3 sp .
  from r1 r2 r3 have 4: "\<exists>recs gs'.
             obtener_recomendaciones db gs usuario limite =
               Inr (slice_hasta (sort_key (\<lambda>x. - rec_puntuacion x) recs) limite, gs')
             \<and> map (\<lambda>r. user_id (rec_usuario r)) recs =
                 filter (\<lambda>c. c \<in> user_id ` set (usuarios db))
                   (excluir_pendientes db usuario pool)
             \<and> (\<lambda>r. user_id (rec_usuario r)) ` set recs =
                 ((if int (card capas) < limite
                   then capas \<union>
                        (user_id ` set (usuarios db) - set amigos - {user_id usuario} - capas)
                   else capas)
                  - set (solicitudes_enviadas db usuario)
                  - set (solicitudes_recibidas db usuario))
                 \<inter> user_id ` set (usuarios db)"
    by blast
  from 1 2 3 4 show ?thesis by (intro conjI)
qed

theorem ampliacion_candidatos_witness:
  "fst (candidatos_antes_de_solicitudes db_prueba grafo_social_init sofia 5)
     = [1, 4, 2, 6, 7, 8, 9, 10]
   \<and> fst (candidatos_antes_de_solicitudes db_prueba grafo_social_init sofia 4) = [1, 4, 2, 6]
   \<and> set (fst (candidatos_antes_de_solicitudes db_prueba grafo_social_init sofia 4))
       = set (dd_get (fst (bfs_niveles db_prueba
                (construir_grafo db_prueba grafo_social_init) (user_id sofia) 4)) 2)
         \<union> set (dd_get (fst (bfs_niveles db_prueba
                (construir_grafo db_prueba grafo_social_init) (user_id sofia) 4)) 3)
         \<union> set (dd_get (fst (bfs_niveles db_prueba
                (construir_grafo db_prueba grafo_social_init) (user_id sofia) 4)) 4)
   \<and> set (fst (candidatos_antes_de_solicitudes db_aislados grafo_social_init ana 3)) = {2}
   \<and> (\<exists>recs gs'.
         obtener_recomendaciones db_aislados grafo_social_init ana 3 =
           Inr (slice_hasta (sort_key (\<lambda>x. - rec_puntuacion x) recs) 3, gs')
         \<and> (\<lambda>r. user_id (rec_usuario r)) ` set recs = {2})
   \<and> map_sum id (\<lambda>p. map (\<lambda>r. user_id (rec_usuario r)) (fst p))
         (obtener_recomendaciones db_aislados grafo_social_init ana 3) = Inr [2]"
proof -
  have a: "fst (candidatos_antes_de_solicitudes db_prueba grafo_social_init sofia 5)
     = [1, 4, 2, 6, 7, 8, 9, 10]"
    by code_simp
  have b: "fst (candidatos_antes_de_solicitudes db_prueba grafo_social_init sofia 4)
     = [1, 4, 2, 6]"
    by code_simp
  have c: "\<not> int (card (set (dd_get (fst (bfs_niveles db_prueba
                (construir_grafo db_prueba grafo_social_init) (user_id sofia) 4)) 2)
         \<union> set (dd_get (fst (bfs_niveles db_prueba
                (construir_grafo db_prueba grafo_social_init) (user_id sofia) 4)) 3)
         \<union> set (dd_get (fst (bfs_niveles db_prueba
                (construir_grafo db_prueba grafo_social_init) (user_id sofia) 4)) 4))) < 4"
    by code_simp
  from ampliacion_candidatos [of db_prueba grafo_social_init sofia 4] c
  have d: "set (fst (candidatos_antes_de_solicitudes db_prueba grafo_social_init sofia 4))
       = set (dd_get (fst (bfs_niveles db_prueba
                (construir_grafo db_prueba grafo_social_init) (user_id sofia) 4)) 2)
         \<union> set (dd_get (fst (bfs_niveles db_prueba
                (construir_grafo db_prueba grafo_social_init) (user_id sofia) 4)) 3)
         \<union> set (dd_get (fst (bfs_niveles db_prueba
                (construir_grafo db_prueba grafo_social_init) (user_id sofia) 4)) 4)"
    by blast
  have n: "fst (bfs_niveles db_aislados (construir_grafo db_aislados grafo_social_init)
                  1 4) = []"
    by code_simp
  have am: "fst (obtener_amigos db_aislados (construir_grafo db_aislados grafo_social_init)
                   1) = []"
    by code_simp
  have se: "solicitudes_enviadas db_aislados ana = []" by code_simp
  have sr: "solicitudes_recibidas db_aislados ana = []" by code_simp
  have ids: "user_id ` set (usuarios db_aislados) = {1, 2}"
    by (simp add: db_aislados_def)
  have ua: "user_id ana = 1" by (simp add: ana_def)
  have w: "({} \<union> ({1, 2 :: int} - {} - {1} - {}) - {} - {}) \<inter> {1, 2} = {2}" by auto
  note t = ampliacion_candidatos [of db_aislados grafo_social_init ana 3,
      unfolded n am se sr ids ua dd_get_Nil list.set Un_empty_left card.empty]
  from t have e: "set (fst (candidatos_antes_de_solicitudes db_aislados grafo_social_init ana 3))
                    = {2}"
    by auto
  from t have f: "\<exists>recs gs'.
         obtener_recomendaciones db_aislados grafo_social_init ana 3 =
           Inr (slice_hasta (sort_key (\<lambda>x. - rec_puntuacion x) recs) 3, gs')
         \<and> (\<lambda>r. user_id (rec_usuario r)) ` set recs = {2}"
    using w by auto
  have g: "map_sum id (\<lambda>p. map (\<lambda>r. user_id (rec_usuario r)) (fst p))
         (obtener_recomendaciones db_aislados grafo_social_init ana 3) = Inr [2]"
    by code_simp
  from a b d e f g show ?thesis by (intro conjI)
qed

text \<open>
  C2. No entry of the list that \<^verbatim>\<open>obtener_recomendaciones(u, limit)\<close> returns is \<open>u\<close>, a
  direct friend of \<open>u\<close>, or a user with a pending request to or from \<open>u\<close>.
\<close>

theorem recomendaciones_exclusiones:
  assumes rec: "obtener_recomendaciones db gs usuario limite = Inr (recs, gs')"
    and r: "r \<in> set recs"
  shows "user_id (rec_usuario r) \<noteq> user_id usuario
       \<and> user_id (rec_usuario r) \<notin>
           set (fst (obtener_amigos db (construir_grafo db gs) (user_id usuario)))
       \<and> (\<forall>sol \<in> set (solicitudes db). estado sol = ''pendiente'' \<longrightarrow>
             \<not> (de_usuario_id sol = user_id usuario
                  \<and> para_usuario_id sol = user_id (rec_usuario r))
             \<and> \<not> (de_usuario_id sol = user_id (rec_usuario r)
                  \<and> para_usuario_id sol = user_id usuario))"
proof -
  let ?g = "grafo (construir_grafo db gs)"
  let ?u = "user_id usuario"
  let ?c = "user_id (rec_usuario r)"
  let ?niv = "bfs_niveles_grafo ?g ?u 4"
  from obtener_recomendaciones_ids [OF rec r]
  have c: "?c \<in> set (fst (candidatos_antes_de_solicitudes db gs usuario limite))"
    and e: "?c \<notin> set (solicitudes_enviadas db usuario)"
    and i: "?c \<notin> set (solicitudes_recibidas db usuario)"
    by (simp_all add: set_excluir_pendientes)
  from c have "?c \<in> set (candidatos_niveles ?niv) \<or> (?c \<notin> set (dd_get ?g ?u) \<and> ?c \<noteq> ?u)"
    unfolding candidatos_antes_de_solicitudes_eq set_ampliar_candidatos
    by (auto split: if_splits)
  then have a: "?c \<noteq> ?u \<and> ?c \<notin> set (dd_get ?g ?u)"
  proof
    assume "?c \<in> set (candidatos_niveles ?niv)"
    then have "?c \<in> set (dd_get ?niv 2) \<or> ?c \<in> set (dd_get ?niv 3) \<or> ?c \<in> set (dd_get ?niv 4)"
      by (simp add: set_candidatos_niveles)
    then show ?thesis
      using nivel_no_origen_ni_amigo [of ?c ?g ?u 4 2]
        nivel_no_origen_ni_amigo [of ?c ?g ?u 4 3]
        nivel_no_origen_ni_amigo [of ?c ?g ?u 4 4]
      by auto
  next
    assume "?c \<notin> set (dd_get ?g ?u) \<and> ?c \<noteq> ?u"
    then show ?thesis by simp
  qed
  have am: "fst (obtener_amigos db (construir_grafo db gs) ?u) = dd_get ?g ?u"
    by (simp add: obtener_amigos_def Let_def)
  have p: "\<forall>sol \<in> set (solicitudes db). estado sol = ''pendiente'' \<longrightarrow>
             \<not> (de_usuario_id sol = ?u \<and> para_usuario_id sol = ?c)
             \<and> \<not> (de_usuario_id sol = ?c \<and> para_usuario_id sol = ?u)"
    using e i unfolding set_solicitudes_enviadas set_solicitudes_recibidas by blast
  from a p show ?thesis unfolding am by blast
qed

theorem recomendaciones_exclusiones_witness:
  "map (\<lambda>r. user_id (rec_usuario r))
     (fst (projr (obtener_recomendaciones db_camino grafo_social_init ana 5))) = [4]
   \<and> user_id (rec_usuario (hd (fst (projr
        (obtener_recomendaciones db_camino grafo_social_init ana 5))))) \<noteq> user_id ana
   \<and> user_id (rec_usuario (hd (fst (projr
        (obtener_recomendaciones db_camino grafo_social_init ana 5)))))
       \<notin> set (fst (obtener_amigos db_camino
                 (construir_grafo db_camino grafo_social_init) (user_id ana)))"
proof -
  let ?res = "projr (obtener_recomendaciones db_camino grafo_social_init ana 5)"
  have m: "map (\<lambda>r. user_id (rec_usuario r)) (fst ?res) = [4]"
    by code_simp
  then have "fst ?res \<noteq> []" by auto
  then have h: "hd (fst ?res) \<in> set (fst ?res)" by simp
  have e: "obtener_recomendaciones db_camino grafo_social_init ana 5
             = Inr (fst ?res, snd ?res)"
    using obtener_recomendaciones_Inr [of db_camino grafo_social_init ana 5] by simp
  from recomendaciones_exclusiones [OF e h] m show ?thesis by blast
qed

text \<open>
  C6. The claim bounds the length of the result by \<open>limit\<close> and makes it empty for
  \<open>limit \<le> 0\<close>. The code truncates with \<^verbatim>\<open>recomendaciones[:limite]\<close>, which for a
  negative \<open>limite\<close> drops that many entries from the end: for carlos on the path of five
  users and \<open>limite = - 1\<close> the result has one entry.
\<close>

theorem limite_negativo_no_acota:
  "map_sum id (\<lambda>p. map (\<lambda>r. user_id (rec_usuario r)) (fst p))
     (obtener_recomendaciones db_camino grafo_social_init carlos (- 1)) = Inr [4]"
  by code_simp

text \<open>
  C9, as stated, fails: neither method looks the origin up. For a user object with no row
  the recommendations are the other users and the statistics are returned as for an
  isolated node.
\<close>

theorem origen_inexistente_counterexample:
  "user_get db_aislados (user_id nadie) = Inl DoesNotExist
   \<and> map_sum id (\<lambda>p. map (\<lambda>r. user_id (rec_usuario r)) (fst p))
        (obtener_recomendaciones db_aislados grafo_social_init nadie 3) = Inr [1, 2]
   \<and> map_sum id fst (obtener_estadisticas_grafo db_aislados grafo_social_init nadie)
        = Inr \<lparr>est_amigos_directos = 0, est_nivel_2 = 0, est_nivel_3 = 0, est_nivel_4 = 0,
                est_total_usuarios = 2, est_alcance = 0\<rparr>"
  by code_simp

text \<open>
  C9, amended. When the origin user id is in no user row, neither operation reports a
  not-found condition: \<^verbatim>\<open>obtener_recomendaciones\<close> returns its list and
  \<^verbatim>\<open>obtener_estadisticas_grafo\<close> returns its statistics; and when no friendship row names
  that id either, the statistics are 0 direct friends, 0 at the levels 2, 3 and 4, reach 0,
  and the number of graph nodes as \<^verbatim>\<open>total_usuarios\<close>.
\<close>

theorem origen_inexistente_sin_error:
  assumes ne: "user_id usuario \<notin> user_id ` set (usuarios db)"
  shows "(\<exists>recs gs'. obtener_recomendaciones db gs usuario limite = Inr (recs, gs'))
       \<and> (\<exists>est gs'. obtener_estadisticas_grafo db gs usuario = Inr (est, gs'))
       \<and> ((\<forall>a \<in> set (amistades db). usuario1_id a \<noteq> user_id usuario
                                       \<and> usuario2_id a \<noteq> user_id usuario) \<longrightarrow>
            (\<exists>gs'. obtener_estadisticas_grafo db gs usuario =
                  Inr (\<lparr>est_amigos_directos = 0, est_nivel_2 = 0, est_nivel_3 = 0,
                        est_nivel_4 = 0,
                        est_total_usuarios = int (length (grafo (construir_grafo db gs))),
                        est_alcance = 0\<rparr>, gs')))"
proof -
  let ?g = "grafo (construir_grafo db gs)"
  let ?u = "user_id usuario"
  have 1: "\<exists>recs gs'. obtener_recomendaciones db gs usuario limite = Inr (recs, gs')"
    using obtener_recomendaciones_Inr [of db gs usuario limite]
    by (metis prod.collapse)
  have 2: "\<exists>est gs'. obtener_estadisticas_grafo db gs usuario = Inr (est, gs')"
    by (simp add: obtener_estadisticas_grafo_def split_def Let_def)
  have 3: "\<exists>gs'. obtener_estadisticas_grafo db gs usuario =
                  Inr (\<lparr>est_amigos_directos = 0, est_nivel_2 = 0, est_nivel_3 = 0,
                        est_nivel_4 = 0,
                        est_total_usuarios = int (length ?g),
                        est_alcance = 0\<rparr>, gs')"
    if na: "\<forall>a \<in> set (amistades db). usuario1_id a \<noteq> ?u \<and> usuario2_id a \<noteq> ?u"
  proof -
    have "\<not> arista db ?u b" for b
    proof
      assume "arista db ?u b"
      then obtain e where e: "e \<in> set (amistades db)"
        "usuario1_id e = ?u \<or> usuario2_id e = ?u"
        unfolding arista_def by blast
      with na show False by auto
    qed
    then have "b \<notin> set (dd_get ?g ?u)" for b
      by (simp add: construir_grafo_vecinos)
    then have v: "dd_get ?g ?u = []"
      by (cases "dd_get ?g ?u") (simp, metis list.set_intros(1))
    have n: "bfs_niveles_grafo ?g ?u 4 = []"
      using v by (rule bfs_niveles_grafo_aislado)
    show ?thesis
      by (simp add: obtener_estadisticas_grafo_def bfs_niveles_def obtener_amigos_def
            Let_def n v)
  qed
  from 1 2 3 show ?thesis by blast
qed

theorem origen_inexistente_sin_error_witness:
  "map_sum id fst (obtener_estadisticas_grafo db_camino grafo_social_init nadie)
     = Inr \<lparr>est_amigos_directos = 0, est_nivel_2 = 0, est_nivel_3 = 0, est_nivel_4 = 0,
             est_total_usuarios = 5, est_alcance = 0\<rparr>
   \<and> isl (obtener_recomendaciones db_camino grafo_social_init nadie 3) = False
   \<and> length (amistades db_camino) = 4"
proof -
  have a: "user_id nadie \<notin> user_id ` set (usuarios db_camino)"
    by (simp add: nadie_def db_camino_def)
  have b: "\<forall>a \<in> set (amistades db_camino).
             usuario1_id a \<noteq> user_id nadie \<and> usuario2_id a \<noteq> user_id nadie"
    by (simp add: db_camino_def nadie_def)
  have l: "int (length (grafo (construir_grafo db_camino grafo_social_init))) = 5"
    by code_simp
  have m: "length (amistades db_camino) = 4" by (simp add: db_camino_def)
  from origen_inexistente_sin_error [OF a, of grafo_social_init 3] b l m show ?thesis
    by auto
qed

end
